theory Spec2Isabelle
  imports Main "HOL-Library.Char_ord" "HOL-Library.List_Lexorder"
    "HOL-Library.Product_Lexorder" "HOL-Library.AList"
begin

section \<open>Python strings\<close>

text \<open>
  Strings are \<open>char list\<close>. The string methods the registry uses (\<open>strip\<close>,
  \<open>isidentifier\<close>, \<open>lower\<close>, \<open>title\<close>) are given for ASCII text: a character
  outside ASCII is neither a letter, a digit nor a space here. String comparison is
  the lexicographic order on characters (\<open>List_Lexorder\<close> over \<open>Char_ord\<close>), as Python
  compares code points.
\<close>

definition uppers :: string where
  "uppers = ''ABCDEFGHIJKLMNOPQRSTUVWXYZ''"

definition lowers :: string where
  "lowers = ''abcdefghijklmnopqrstuvwxyz''"

definition digits :: string where
  "digits = ''0123456789''"

definition spaces :: string where
  "spaces = [CHR 0x09, CHR 0x0A, CHR 0x0B, CHR 0x0C, CHR 0x0D,
             CHR 0x1C, CHR 0x1D, CHR 0x1E, CHR 0x1F, CHR 0x20]"

definition is_upper :: "char \<Rightarrow> bool" where
  "is_upper c \<longleftrightarrow> c \<in> set uppers"

definition is_lower :: "char \<Rightarrow> bool" where
  "is_lower c \<longleftrightarrow> c \<in> set lowers"

definition is_alpha :: "char \<Rightarrow> bool" where
  "is_alpha c \<longleftrightarrow> is_upper c \<or> is_lower c"

definition is_digit :: "char \<Rightarrow> bool" where
  "is_digit c \<longleftrightarrow> c \<in> set digits"

definition is_space :: "char \<Rightarrow> bool" where
  "is_space c \<longleftrightarrow> c \<in> set spaces"

definition lower_char :: "char \<Rightarrow> char" where
  "lower_char c = (case map_of (zip uppers lowers) c of None \<Rightarrow> c | Some d \<Rightarrow> d)"

definition upper_char :: "char \<Rightarrow> char" where
  "upper_char c = (case map_of (zip lowers uppers) c of None \<Rightarrow> c | Some d \<Rightarrow> d)"

text \<open>\<open>s.lower()\<close>\<close>

definition lower :: "string \<Rightarrow> string" where
  "lower s = map lower_char s"

text \<open>\<open>s.strip()\<close>\<close>

definition strip :: "string \<Rightarrow> string" where
  "strip s = rev (dropWhile is_space (rev (dropWhile is_space s)))"

text \<open>\<open>s.isidentifier()\<close>\<close>

definition isidentifier :: "string \<Rightarrow> bool" where
  "isidentifier s \<longleftrightarrow>
     (case s of [] \<Rightarrow> False
      | c # cs \<Rightarrow> (is_alpha c \<or> c = CHR ''_'')
                 \<and> list_all (\<lambda>d. is_alpha d \<or> is_digit d \<or> d = CHR ''_'') cs)"

text \<open>
  \<open>s.title()\<close>: a letter that follows a letter is lowered, any other letter is raised.
\<close>

fun title_from :: "bool \<Rightarrow> string \<Rightarrow> string" where
  "title_from prev [] = []"
| "title_from prev (c # cs) =
     (if is_alpha c then (if prev then lower_char c else upper_char c) else c)
       # title_from (is_alpha c) cs"

definition title :: "string \<Rightarrow> string" where
  "title s = title_from False s"

text \<open>\<open>str(n)\<close> for an integer: its decimal digits, with a minus sign first when negative.\<close>

fun str_nat :: "nat \<Rightarrow> string" where
  "str_nat n =
     (if n < 10 then [digits ! n]
      else str_nat (n div 10) @ [digits ! (n mod 10)])"

declare str_nat.simps [simp del]

definition str_int :: "int \<Rightarrow> string" where
  "str_int i = (if i < 0 then CHR ''-'' # str_nat (nat (- i)) else str_nat (nat i))"

text \<open>
  \<open>int(s)\<close> for a string: surrounding white space is dropped, one sign is allowed, then
  decimal digits, with single underscores allowed between digits. Anything else is a
  \<open>ValueError\<close> (\<open>None\<close> here).
\<close>

definition digit_value :: "char \<Rightarrow> nat" where
  "digit_value c = (case map_of (zip digits [0, 1, 2, 3, 4, 5, 6, 7, 8, 9]) c of None \<Rightarrow> 0 | Some n \<Rightarrow> n)"

fun parse_digits :: "nat \<Rightarrow> string \<Rightarrow> nat option" where
  "parse_digits acc [] = None"
| "parse_digits acc [c] =
     (if is_digit c then Some (10 * acc + digit_value c) else None)"
| "parse_digits acc (c # d # cs) =
     (if is_digit c
      then (if d = CHR ''_'' then parse_digits (10 * acc + digit_value c) cs
            else parse_digits (10 * acc + digit_value c) (d # cs))
      else None)"

definition int_of_str :: "string \<Rightarrow> int option" where
  "int_of_str s =
     (case strip s of
        [] \<Rightarrow> None
      | c # cs \<Rightarrow>
          if c = CHR ''-'' then map_option (\<lambda>n. - int n) (parse_digits 0 cs)
          else if c = CHR ''+'' then map_option int (parse_digits 0 cs)
          else map_option int (parse_digits 0 (c # cs)))"

section \<open>Values, errors and the host\<close>

text \<open>
  Values held by a variable. Integers, strings, booleans, \<open>None\<close>, lists and tuples are
  modelled; every other value of the host or of Python (a float, a quantity, a vector)
  is \<open>POpaque\<close> of a handle, and what Python does with one is a parameter of the
  environment.
\<close>

datatype opaque = Opaque nat

datatype pyval =
    PNone
  | PBool bool
  | PInt int
  | PStr string
  | PList "pyval list"
  | PTuple "pyval list"
  | POpaque opaque

datatype py_error = ValueError | TypeError | AttributeError | HostError

text \<open>
  The environment: the host document store and the Python primitives on values that
  are not modelled. \<open>default_value t\<close> is the value of a property of type \<open>t\<close> right
  after \<open>addProperty\<close>; \<open>assign_value t v\<close> is what the store holds after \<open>v\<close> is
  assigned to a property of type \<open>t\<close>, or the error the store raises;
  \<open>get_unique_name\<close> is the generator of internal object names
  (\<open>freecad.vars.utils.get_unique_name\<close>); \<open>isRestoring\<close> is the document's flag of
  that name.
\<close>

record env =
  supportedProperties :: "string list"
  default_value :: "string \<Rightarrow> pyval"
  assign_value :: "string \<Rightarrow> pyval \<Rightarrow> py_error + pyval"
  get_unique_name :: "string list \<Rightarrow> string"
  isRestoring :: bool
  opaque_truthy :: "opaque \<Rightarrow> bool"
  str_other :: "pyval \<Rightarrow> string"
  int_other :: "pyval \<Rightarrow> py_error + int"
  py_float :: "pyval \<Rightarrow> py_error + pyval"
  is_quantity :: "pyval \<Rightarrow> bool"
  make_quantity :: "pyval list \<Rightarrow> py_error + pyval"
  construct_like :: "pyval \<Rightarrow> pyval \<Rightarrow> py_error + pyval"

text \<open>Truth value of a Python value (\<open>if value:\<close>).\<close>

fun truthy :: "env \<Rightarrow> pyval \<Rightarrow> bool" where
  "truthy h PNone = False"
| "truthy h (PBool b) = b"
| "truthy h (PInt n) = (n \<noteq> 0)"
| "truthy h (PStr s) = (s \<noteq> [])"
| "truthy h (PList xs) = (xs \<noteq> [])"
| "truthy h (PTuple xs) = (xs \<noteq> [])"
| "truthy h (POpaque x) = opaque_truthy h x"

text \<open>\<open>str(item)\<close> and \<open>int(item)\<close>.\<close>

fun py_str :: "env \<Rightarrow> pyval \<Rightarrow> string" where
  "py_str h (PStr s) = s"
| "py_str h (PInt n) = str_int n"
| "py_str h (PBool b) = (if b then ''True'' else ''False'')"
| "py_str h PNone = ''None''"
| "py_str h v = str_other h v"

fun py_int :: "env \<Rightarrow> pyval \<Rightarrow> py_error + int" where
  "py_int h (PInt n) = Inr n"
| "py_int h (PBool b) = Inr (if b then 1 else 0)"
| "py_int h (PStr s) = (case int_of_str s of None \<Rightarrow> Inl ValueError | Some n \<Rightarrow> Inr n)"
| "py_int h PNone = Inl TypeError"
| "py_int h (PList xs) = Inl TypeError"
| "py_int h (PTuple xs) = Inl TypeError"
| "py_int h (POpaque x) = int_other h (POpaque x)"

text \<open>A list comprehension whose element expression may raise: the first error wins.\<close>

fun map_raise :: "('a \<Rightarrow> py_error + 'b) \<Rightarrow> 'a list \<Rightarrow> py_error + 'b list" where
  "map_raise f [] = Inr []"
| "map_raise f (x # xs) =
     (case f x of
        Inl e \<Rightarrow> Inl e
      | Inr y \<Rightarrow> (case map_raise f xs of Inl e \<Rightarrow> Inl e | Inr ys \<Rightarrow> Inr (y # ys)))"

section \<open>The document store\<close>

text \<open>
  One \<open>varset\<close> is the host object behind one variable. \<open>SortKey\<close>, \<open>Hidden\<close> and
  \<open>GroupSortKey\<close> are \<open>None\<close> while the object has no property of that name
  (\<open>hasattr\<close> is false). The description stands for the three places the source writes
  it to (\<open>Description\<close>, \<open>Label2\<close>, the documentation of \<open>Value\<close>). \<open>ReadOnly\<close> is the
  read-only bit of the editor mode of \<open>Value\<close>.

  A document is the list of the objects that \<open>is_var\<close> accepts, in the order in which
  \<open>findObjects\<close> returns them; a new object goes to the end.
\<close>

record varset =
  Name :: string
  Label :: string
  ValueType :: string
  Value :: pyval
  Enumerations :: "string list"
  Description :: string
  VarGroup :: string
  SortKey :: "int option"
  Hidden :: "bool option"
  GroupSortKey :: "int option"
  Expression :: "string option"
  ReadOnly :: bool

type_synonym document = "varset list"

text \<open>
  A \<open>Variable\<close> proxy: its \<open>_name\<close> and the position in the document of the object it
  holds in \<open>_obj\<close>.
\<close>

type_synonym variable = "string \<times> nat"

definition sanitize_var_name :: "string \<Rightarrow> py_error + string" where
  "sanitize_var_name name =
     (let name = strip name
      in if name = [] \<or> \<not> isidentifier name then Inl ValueError else Inr name)"

fun find_label :: "string \<Rightarrow> document \<Rightarrow> nat option" where
  "find_label name [] = None"
| "find_label name (ob # obs) =
     (if Label ob = name then Some 0 else map_option Suc (find_label name obs))"

text \<open>\<open>get_varset\<close>: the first object carrying the label.\<close>

definition get_varset :: "string \<Rightarrow> document \<Rightarrow> nat option" where
  "get_varset name doc = find_label name doc"

text \<open>
  \<open>existing_var_name\<close>: the label of the first object whose label equals the name up to
  letter case.
\<close>

definition existing_var_name :: "string \<Rightarrow> document \<Rightarrow> string option" where
  "existing_var_name name doc =
     map_option Label (find (\<lambda>ob. lower (Label ob) = lower name) doc)"

text \<open>
  \<open>Variable(doc, name)\<close> for an object of the document. The constructor sanitizes the
  name and looks the object up; a proxy that found no object raises \<open>ValueError\<close> at
  its first use, which is taken here at construction.
\<close>

definition bound_variable :: "document \<Rightarrow> string \<Rightarrow> py_error + variable" where
  "bound_variable doc name =
     (case sanitize_var_name name of
        Inl e \<Rightarrow> Inl e
      | Inr n \<Rightarrow> (case get_varset n doc of None \<Rightarrow> Inl ValueError | Some i \<Rightarrow> Inr (n, i)))"

definition get_vars :: "document \<Rightarrow> py_error + variable list" where
  "get_vars doc = map_raise (\<lambda>ob. bound_variable doc (Label ob)) doc"

text \<open>The \<open>group\<close> property: \<open>VarGroup or "Default"\<close>.\<close>

definition group_of :: "varset \<Rightarrow> string" where
  "group_of ob = (if VarGroup ob = [] then ''Default'' else VarGroup ob)"

definition var_group :: "document \<Rightarrow> variable \<Rightarrow> string" where
  "var_group doc v = group_of (doc ! snd v)"

section \<open>Group keys at creation\<close>

text \<open>
  \<open>_get_or_assign_initial_group_sort_key\<close>. The dictionary \<open>processed_groups_keys\<close> is
  an association list in insertion order.
\<close>

fun processed_groups_keys ::
  "document \<Rightarrow> variable list \<Rightarrow> (string \<times> int) list \<Rightarrow> (string \<times> int) list" where
  "processed_groups_keys doc [] processed = processed"
| "processed_groups_keys doc (v # vs) processed =
     (case GroupSortKey (doc ! snd v) of
        None \<Rightarrow> processed_groups_keys doc vs processed
      | Some gsk \<Rightarrow>
          if map_of processed (var_group doc v) = None
          then processed_groups_keys doc vs (processed @ [(var_group doc v, gsk)])
          else processed_groups_keys doc vs processed)"

definition get_or_assign_initial_group_sort_key ::
  "string \<Rightarrow> document \<Rightarrow> py_error + int" where
  "get_or_assign_initial_group_sort_key group_name doc =
     (case get_vars doc of
        Inl e \<Rightarrow> Inl e
      | Inr vars \<Rightarrow>
          (let processed = processed_groups_keys doc vars []
           in (case map_of processed group_name of
                 Some k \<Rightarrow> Inr k
               | None \<Rightarrow>
                   Inr ((if processed = [] then (- 1) else Max (set (map snd processed))) + 1))))"

section \<open>Creating a variable\<close>

text \<open>
  \<open>create_var\<close>. The arguments are, in this order: name, type, value (\<open>PNone\<close> when
  absent), options, description, expression, group (the empty string also stands for
  \<open>None\<close>; both are false in \<open>group or "Default"\<close> and neither is a group name). The
  result is the document after the call and what the call returns or raises.

  The host steps: \<open>addObject\<close> appends the object; \<open>addProperty\<close> of a type the host
  does not support raises; a new integer property holds 0; assigning the value may
  raise. Binding an expression is recorded, its evaluation by the host is not
  modelled. Whatever was written before an error stays written.
\<close>

definition new_varset :: "env \<Rightarrow> document \<Rightarrow> string \<Rightarrow> varset" where
  "new_varset h doc name =
     \<lparr> Name = get_unique_name h (map Name doc), Label = name, ValueType = [],
       Value = PNone, Enumerations = [], Description = [], VarGroup = [],
       SortKey = None, Hidden = None, GroupSortKey = None, Expression = None,
       ReadOnly = False \<rparr>"

definition create_var ::
  "env \<Rightarrow> string \<Rightarrow> string \<Rightarrow> pyval \<Rightarrow> string list option \<Rightarrow> string \<Rightarrow> string option
     \<Rightarrow> string \<Rightarrow> document \<Rightarrow> document \<times> (py_error + bool)" where
  "create_var h name var_type val options description expression grp doc =
     (case sanitize_var_name name of
        Inl e \<Rightarrow> (doc, Inl e)
      | Inr name \<Rightarrow>
          if existing_var_name name doc \<noteq> None then (doc, Inr False)
          else if var_type = ''App::PropertyEnumeration'' \<and> options = None
            then (doc, Inl ValueError)
          else if var_type \<noteq> ''App::PropertyEnumeration'' \<and> options \<noteq> None
            then (doc, Inl ValueError)
          else
            let ob0 = new_varset h doc name;
                ob1 = ob0 \<lparr> Description := description \<rparr>
            in if var_type \<notin> set (supportedProperties h)
               then (doc @ [ob1], Inl HostError)
               else
                 let ob2 = ob1 \<lparr> ValueType := var_type, Value := default_value h var_type,
                              Enumerations := (case options of None \<Rightarrow> [] | Some os \<Rightarrow> os) \<rparr>;
                     ob3 = ob2 \<lparr> VarGroup := title (if grp = [] then ''Default'' else grp),
                              SortKey := Some 0, Hidden := Some False \<rparr>;
                     bind_expr = (case expression of None \<Rightarrow> False | Some e \<Rightarrow> e \<noteq> []);
                     assigned =
                       (if bind_expr then Inr (ob3 \<lparr> Expression := expression \<rparr>)
                        else if val \<noteq> PNone
                          then (case assign_value h var_type val of
                                  Inl e \<Rightarrow> Inl e
                                | Inr stored \<Rightarrow> Inr (ob3 \<lparr> Value := stored \<rparr>))
                        else Inr ob3)
                 in case assigned of
                      Inl e \<Rightarrow> (doc @ [ob3], Inl e)
                    | Inr ob4 \<Rightarrow>
                        let ob5 = ob4 \<lparr> GroupSortKey := Some 0 \<rparr>
                        in case get_or_assign_initial_group_sort_key grp (doc @ [ob5]) of
                             Inl e \<Rightarrow> (doc @ [ob5], Inl e)
                           | Inr initial_gsk \<Rightarrow>
                               (doc @ [ob5 \<lparr> GroupSortKey := Some initial_gsk \<rparr>], Inr True))"

text \<open>The setter of \<open>Variable.group\<close>, on the object the proxy holds.\<close>

definition set_group :: "variable \<Rightarrow> string \<Rightarrow> document \<Rightarrow> document" where
  "set_group v grp doc =
     doc[snd v := (doc ! snd v) \<lparr> VarGroup := title (if grp = [] then ''Default'' else grp) \<rparr>]"

text \<open>\<open>set_var_group\<close>: build the proxy, then set its group.\<close>

definition set_var_group :: "string \<Rightarrow> string \<Rightarrow> document \<Rightarrow> document \<times> (py_error + unit)" where
  "set_var_group name grp doc =
     (case bound_variable doc name of
        Inl e \<Rightarrow> (doc, Inl e)
      | Inr v \<Rightarrow> (set_group v grp doc, Inr ()))"

section \<open>Reordering a variable inside its group\<close>

text \<open>
  The \<open>sort_key\<close> property, by which \<open>sorted\<close> compares two proxies:
  \<open>(group, SortKey, name)\<close>, with 0 for an object that has no \<open>SortKey\<close>.
\<close>

definition sort_key_of :: "document \<Rightarrow> variable \<Rightarrow> string \<times> int \<times> string" where
  "sort_key_of doc v =
     (var_group doc v, (case SortKey (doc ! snd v) of None \<Rightarrow> 0 | Some k \<Rightarrow> k), fst v)"

text \<open>\<open>_set_sort_key\<close>\<close>

definition set_sort_key :: "variable \<Rightarrow> int \<Rightarrow> document \<Rightarrow> document" where
  "set_sort_key v key doc = doc[snd v := (doc ! snd v) \<lparr> SortKey := Some key \<rparr>]"

text \<open>\<open>sorted(v for v in get_vars() if v.group == group)\<close>; Python's sort is stable.\<close>

definition sorted_group :: "document \<Rightarrow> string \<Rightarrow> variable list \<Rightarrow> variable list" where
  "sorted_group doc grp vars =
     sort_key (sort_key_of doc) (filter (\<lambda>v. var_group doc v = grp) vars)"

text \<open>
  The move is a float in the source. The values the registry is called with are the
  integers and the two infinities.
\<close>

datatype delta = NegInf | Fin int | PosInf

text \<open>\<open>pos >= seek\<close>, where \<open>seek = SortKey + delta\<close>.\<close>

fun reaches :: "int \<Rightarrow> delta \<Rightarrow> int \<Rightarrow> bool" where
  "reaches key NegInf pos = True"
| "reaches key (Fin d) pos = (pos \<ge> key + d)"
| "reaches key PosInf pos = False"

text \<open>The first loop of \<open>reorder\<close>: every member gets its position as key.\<close>

fun renumber :: "variable list \<Rightarrow> int \<Rightarrow> document \<Rightarrow> document" where
  "renumber [] pos doc = doc"
| "renumber (v # vs) pos doc = renumber vs (pos + 1) (set_sort_key v pos doc)"

text \<open>
  The second loop, over the members other than the moved one, from position \<open>pos\<close>
  with the current \<open>offset\<close> and \<open>ins\<close>; it returns the document and \<open>ins\<close>.
\<close>

fun shift_others ::
  "(int \<Rightarrow> bool) \<Rightarrow> variable list \<Rightarrow> int \<Rightarrow> int \<Rightarrow> int \<Rightarrow> document \<Rightarrow> document \<times> int" where
  "shift_others at_seek [] pos offset ins doc = (doc, ins)"
| "shift_others at_seek (v # vs) pos offset ins doc =
     (if at_seek pos \<and> offset = 0
      then shift_others at_seek vs (pos + 1) 1 pos (set_sort_key v (pos + 1) doc)
      else shift_others at_seek vs (pos + 1) offset ins (set_sort_key v (pos + offset) doc))"

text \<open>
  \<open>Variable.reorder\<close> on a proxy that holds an object of the document. The source
  lists the variables of the active document, which is taken to be the proxy's own.
\<close>

definition reorder :: "variable \<Rightarrow> delta \<Rightarrow> document \<Rightarrow> document \<times> (py_error + unit)" where
  "reorder self delta doc =
     (case get_vars doc of
        Inl e \<Rightarrow> (doc, Inl e)
      | Inr vars \<Rightarrow>
          let group_vars = sorted_group doc (var_group doc self) vars;
              doc1 = renumber group_vars 0 doc
          in case SortKey (doc1 ! snd self) of
               None \<Rightarrow> (doc1, Inl AttributeError)
             | Some key \<Rightarrow>
                 let others = filter (\<lambda>v. Name (doc1 ! snd v) \<noteq> Name (doc1 ! snd self)) group_vars;
                     (doc2, ins) = shift_others (reaches key delta) others 0 0 (- 1) doc1
                 in (set_sort_key self (if ins > - 1 then ins else int (length group_vars)) doc2,
                     Inr ()))"

text \<open>
  The rank of a variable: its position in the sorted list of its group, or the length
  of the list when it is not there.
\<close>

fun index_of :: "'a \<Rightarrow> 'a list \<Rightarrow> nat" where
  "index_of x [] = 0"
| "index_of x (y # ys) = (if x = y then 0 else Suc (index_of x ys))"

definition group_members :: "document \<Rightarrow> string \<Rightarrow> variable list" where
  "group_members doc grp =
     (case get_vars doc of Inl e \<Rightarrow> [] | Inr vars \<Rightarrow> sorted_group doc grp vars)"

definition rank_in_group :: "document \<Rightarrow> variable \<Rightarrow> nat" where
  "rank_in_group doc v = index_of v (group_members doc (var_group doc v))"

text \<open>
  Documents as the registry keeps them: labels are distinct identifiers, and the host
  gives every object its own internal name.
\<close>

definition wf_doc :: "document \<Rightarrow> bool" where
  "wf_doc doc \<longleftrightarrow>
     distinct (map Label doc) \<and> distinct (map Name doc) \<and> list_all isidentifier (map Label doc)"

section \<open>Changing the type of a variable\<close>

text \<open>\<open>s.endswith(suffix)\<close>\<close>

definition endswith :: "string \<Rightarrow> string \<Rightarrow> bool" where
  "endswith s suffix \<longleftrightarrow>
     length suffix \<le> length s \<and> drop (length s - length suffix) s = suffix"

text \<open>
  \<open>convert_list_type\<close>. Each comprehension casts every element; the first element
  that cannot be cast raises, and no list is returned.
\<close>

definition convert_list_type :: "env \<Rightarrow> pyval list \<Rightarrow> string \<Rightarrow> py_error + pyval list" where
  "convert_list_type h data new_type =
     (if data = [] then Inr []
      else if new_type = ''App::PropertyStringList''
        then Inr (map (\<lambda>item. PStr (py_str h item)) data)
      else if new_type = ''App::PropertyIntegerList''
        then map_raise (\<lambda>item. case py_int h item of Inl e \<Rightarrow> Inl e | Inr n \<Rightarrow> Inr (PInt n)) data
      else if new_type = ''App::PropertyFloatList''
        then map_raise (py_float h) data
      else Inr [])"

text \<open>
  \<open>type(varset.Value)(value)\<close>: the constructor of the type of the first value, applied
  to the second.
\<close>

fun construct :: "env \<Rightarrow> pyval \<Rightarrow> pyval \<Rightarrow> py_error + pyval" where
  "construct h (PInt d) v = (case py_int h v of Inl e \<Rightarrow> Inl e | Inr n \<Rightarrow> Inr (PInt n))"
| "construct h (PStr d) v = Inr (PStr (py_str h v))"
| "construct h (PBool d) v = Inr (PBool (truthy h v))"
| "construct h d v = construct_like h d v"

text \<open>
  \<open>removeProperty("Value")\<close> followed by \<open>addProperty(new_type, "Value", ...)\<close>: the
  new property holds the default value of its type and has no options.
\<close>

definition replace_value_property :: "env \<Rightarrow> string \<Rightarrow> varset \<Rightarrow> varset" where
  "replace_value_property h new_type ob =
     ob \<lparr> ValueType := new_type, Value := default_value h new_type, Enumerations := [] \<rparr>"

text \<open>\<open>varset.Value = v\<close>, where the store may raise.\<close>

definition assign :: "env \<Rightarrow> pyval \<Rightarrow> varset \<Rightarrow> py_error + varset" where
  "assign h v ob =
     (case assign_value h (ValueType ob) v of
        Inl e \<Rightarrow> Inl e
      | Inr stored \<Rightarrow> Inr (ob \<lparr> Value := stored \<rparr>))"

text \<open>
  \<open>with contextlib.suppress(Exception): varset.Value = expr\<close>: an error of the
  expression or of the assignment leaves the object as it is.
\<close>

definition assign_suppressed :: "env \<Rightarrow> py_error + pyval \<Rightarrow> varset \<Rightarrow> varset" where
  "assign_suppressed h r ob =
     (case r of
        Inl e \<Rightarrow> ob
      | Inr v \<Rightarrow> (case assign h v ob of Inl e \<Rightarrow> ob | Inr ob' \<Rightarrow> ob'))"

text \<open>
  \<open>set_var_type\<close>. The converter is \<open>None\<close> or a function that may raise. The result
  is the document after the call and what the call returns or raises.
\<close>

definition set_var_type ::
  "env \<Rightarrow> string \<Rightarrow> string \<Rightarrow> (pyval \<Rightarrow> py_error + pyval) option \<Rightarrow> document
     \<Rightarrow> document \<times> (py_error + bool)" where
  "set_var_type h name new_type converter doc =
     (case get_varset name doc of
        None \<Rightarrow> (doc, Inr False)
      | Some i \<Rightarrow>
          if new_type \<notin> set (supportedProperties h) then (doc, Inl ValueError)
          else
            let varset = doc ! i;
                old_type = ValueType varset;
                val = Value varset;
                fresh = replace_value_property h new_type varset
            in if old_type = new_type then (doc, Inr False)
               else (case converter of
                 Some conv \<Rightarrow>
                   (doc[i := (if truthy h val then assign_suppressed h (conv val) fresh else fresh)],
                    Inr True)
               | None \<Rightarrow>
                   if old_type = new_type @ ''List''
                   then (case val of
                           PList (x # xs) \<Rightarrow>
                             (case assign h x fresh of
                                Inl e \<Rightarrow> (doc[i := fresh], Inl e)
                              | Inr ob \<Rightarrow> (doc[i := ob], Inr True))
                         | _ \<Rightarrow> (doc[i := fresh], Inr True))
                   else if new_type = old_type @ ''List''
                   then (if truthy h val
                         then (case assign h (PList [val]) fresh of
                                 Inl e \<Rightarrow> (doc[i := fresh], Inl e)
                               | Inr ob \<Rightarrow> (doc[i := ob], Inr True))
                         else (doc[i := fresh], Inr True))
                   else if endswith old_type ''List'' \<and> endswith new_type ''List''
                   then (case val of
                           PList data \<Rightarrow>
                             (doc[i := assign_suppressed h
                                         (case convert_list_type h data new_type of
                                            Inl e \<Rightarrow> Inl e
                                          | Inr xs \<Rightarrow> Inr (PList xs))
                                         fresh],
                              Inr True)
                         | _ \<Rightarrow> (doc[i := fresh], Inr True))
                   else
                     (doc[i := (if truthy h val
                                then assign_suppressed h (construct h (Value fresh) val) fresh
                                else fresh)],
                      Inr True)))"

text \<open>
  The list conversion as the specification words it for an integer target: each element
  is parsed as an integer, and an element that is not a number is dropped.
\<close>

definition spec_integer_list :: "env \<Rightarrow> pyval list \<Rightarrow> pyval list" where
  "spec_integer_list h data =
     concat (map (\<lambda>item. case py_int h item of Inl e \<Rightarrow> [] | Inr n \<Rightarrow> [PInt n]) data)"

section \<open>Reordering the groups\<close>

text \<open>
  The first loop of \<open>reorder_group\<close>: one key per group, the first met. The dictionary
  \<open>groups_data\<close> is an association list in insertion order, and \<open>AList.update\<close> is
  the assignment \<open>groups_data[k] = v\<close>. An object with no \<open>GroupSortKey\<close> is repaired
  unless the document is restoring; then the call returns false, which is \<open>None\<close> here.
\<close>

fun scan_groups ::
  "env \<Rightarrow> variable list \<Rightarrow> (string \<times> int) list \<Rightarrow> document
     \<Rightarrow> document \<times> (py_error + (string \<times> int) list option)" where
  "scan_groups h [] groups_data doc = (doc, Inr (Some groups_data))"
| "scan_groups h (v # vs) groups_data doc =
     (case GroupSortKey (doc ! snd v) of
        Some gsk \<Rightarrow>
          if map_of groups_data (var_group doc v) = None
          then scan_groups h vs (AList.update (var_group doc v) gsk groups_data) doc
          else scan_groups h vs groups_data doc
      | None \<Rightarrow>
          if \<not> isRestoring h
          then
            (let doc1 = doc[snd v := (doc ! snd v) \<lparr> GroupSortKey := Some 0 \<rparr>]
             in case get_or_assign_initial_group_sort_key (var_group doc v) doc1 of
                  Inl e \<Rightarrow> (doc1, Inl e)
                | Inr fix_gsk \<Rightarrow>
                    scan_groups h vs (AList.update (var_group doc v) fix_gsk groups_data)
                      (doc1[snd v := (doc1 ! snd v) \<lparr> GroupSortKey := Some fix_gsk \<rparr>]))
          else (doc, Inr None))"

text \<open>\<open>sorted(..., key=lambda x: (x["key"], x["name"]))\<close>\<close>

definition sort_groups :: "(string \<times> int) list \<Rightarrow> (string \<times> int) list" where
  "sort_groups groups_data = sort_key (\<lambda>g. (snd g, fst g)) groups_data"

text \<open>The index of the group to move, or \<open>None\<close> for \<open>-1\<close>.\<close>

fun position_of :: "string \<Rightarrow> (string \<times> int) list \<Rightarrow> nat option" where
  "position_of name [] = None"
| "position_of name (g # gs) =
     (if fst g = name then Some 0 else map_option Suc (position_of name gs))"

text \<open>The new index, clamped to the list.\<close>

definition new_position :: "nat \<Rightarrow> delta \<Rightarrow> nat \<Rightarrow> nat" where
  "new_position current_pos_idx delta num_groups =
     (let new_pos_idx =
            (case delta of
               NegInf \<Rightarrow> 0
             | PosInf \<Rightarrow> int num_groups - 1
             | Fin d \<Rightarrow> int current_pos_idx + d)
      in nat (max 0 (min new_pos_idx (int num_groups - 1))))"

text \<open>\<open>item = xs.pop(i); xs.insert(j, item)\<close>\<close>

definition pop_insert :: "nat \<Rightarrow> nat \<Rightarrow> 'a list \<Rightarrow> 'a list" where
  "pop_insert i j xs =
     (let item = xs ! i; rest = take i xs @ drop (Suc i) xs
      in take j rest @ [item] @ drop j rest)"

text \<open>
  The last loops: every variable of the group at index \<open>idx\<close> gets \<open>idx\<close> as its
  group key, if that is not its key already. The flag is \<open>changes_made\<close>.
\<close>

fun assign_group_key ::
  "variable list \<Rightarrow> string \<Rightarrow> int \<Rightarrow> document \<times> bool \<Rightarrow> document \<times> bool" where
  "assign_group_key [] target idx st = st"
| "assign_group_key (v # vs) target idx (doc, changes_made) =
     (if var_group doc v = target
      then
        (let ob = doc ! snd v;
             ob' = (if GroupSortKey ob = None then ob \<lparr> GroupSortKey := Some 0 \<rparr> else ob)
         in if GroupSortKey ob' \<noteq> Some idx
            then assign_group_key vs target idx
                   (doc[snd v := ob' \<lparr> GroupSortKey := Some idx \<rparr>], True)
            else assign_group_key vs target idx (doc[snd v := ob'], changes_made))
      else assign_group_key vs target idx (doc, changes_made))"

fun assign_group_keys ::
  "variable list \<Rightarrow> (string \<times> int) list \<Rightarrow> int \<Rightarrow> document \<times> bool \<Rightarrow> document \<times> bool" where
  "assign_group_keys vars [] idx st = st"
| "assign_group_keys vars (g # gs) idx st =
     assign_group_keys vars gs (idx + 1) (assign_group_key vars (fst g) idx st)"

text \<open>\<open>reorder_group\<close>\<close>

definition reorder_group ::
  "env \<Rightarrow> string \<Rightarrow> delta \<Rightarrow> document \<Rightarrow> document \<times> (py_error + bool)" where
  "reorder_group h group_name_to_move delta doc =
     (case get_vars doc of
        Inl e \<Rightarrow> (doc, Inl e)
      | Inr all_vars \<Rightarrow>
          (case scan_groups h all_vars [] doc of
             (doc1, Inl e) \<Rightarrow> (doc1, Inl e)
           | (doc1, Inr None) \<Rightarrow> (doc1, Inr False)
           | (doc1, Inr (Some groups_data)) \<Rightarrow>
               if groups_data = [] then (doc1, Inr False)
               else
                 (let sorted_groups = sort_groups groups_data
                  in case position_of group_name_to_move sorted_groups of
                       None \<Rightarrow> (doc1, Inr False)
                     | Some current_pos_idx \<Rightarrow>
                         (let new_pos_idx =
                                new_position current_pos_idx delta (length sorted_groups)
                          in if new_pos_idx = current_pos_idx then (doc1, Inr False)
                             else
                               (case assign_group_keys all_vars
                                       (pop_insert current_pos_idx new_pos_idx sorted_groups)
                                       0 (doc1, False) of
                                  (doc2, changes_made) \<Rightarrow> (doc2, Inr changes_made))))))"

text \<open>
  The rank of a group: its index in the sorted snapshot that \<open>reorder_group\<close> takes.
\<close>

definition group_rank :: "env \<Rightarrow> document \<Rightarrow> string \<Rightarrow> nat option" where
  "group_rank h doc name =
     (case get_vars doc of
        Inl e \<Rightarrow> None
      | Inr all_vars \<Rightarrow>
          (case scan_groups h all_vars [] doc of
             (doc1, Inr (Some groups_data)) \<Rightarrow> position_of name (sort_groups groups_data)
           | _ \<Rightarrow> None))"

text \<open>The number of groups of a document.\<close>

definition num_groups :: "document \<Rightarrow> nat" where
  "num_groups doc = length (remdups (map group_of doc))"

text \<open>The number of variables of a group.\<close>

definition group_size :: "document \<Rightarrow> string \<Rightarrow> nat" where
  "group_size doc grp = length (filter (\<lambda>ob. group_of ob = grp) doc)"

section \<open>Notions used in the proofs\<close>

text \<open>The document with every sort key forgotten: what a change of sort keys leaves alone.\<close>

definition forget_keys :: "document \<Rightarrow> document" where
  "forget_keys doc = map (\<lambda>ob. ob \<lparr> SortKey := None \<rparr>) doc"

text \<open>The proxies of a document whose labels are distinct identifiers.\<close>

definition vars_of :: "document \<Rightarrow> variable list" where
  "vars_of doc = map (\<lambda>i. (Label (doc ! i), i)) [0 ..< length doc]"

text \<open>The document with every group key forgotten.\<close>

definition forget_group_keys :: "document \<Rightarrow> document" where
  "forget_group_keys doc = map (\<lambda>ob. ob \<lparr> GroupSortKey := None \<rparr>) doc"

section \<open>Sample environment and documents\<close>

definition sample_env :: env where
  "sample_env =
     \<lparr> supportedProperties =
         [''App::PropertyInteger'', ''App::PropertyString'', ''App::PropertyIntegerList'',
          ''App::PropertyStringList'', ''App::PropertyEnumeration''],
       default_value =
         (\<lambda>t. if t = ''App::PropertyInteger'' then PInt 0
              else if t = ''App::PropertyString'' then PStr []
              else PList []),
       assign_value = (\<lambda>t v. Inr v),
       get_unique_name = (\<lambda>names. ''XVar_'' @ str_nat (length names)),
       isRestoring = False,
       opaque_truthy = (\<lambda>x. True),
       str_other = (\<lambda>v. []),
       int_other = (\<lambda>v. Inl TypeError),
       py_float = (\<lambda>v. Inl TypeError),
       is_quantity = (\<lambda>v. False),
       make_quantity = (\<lambda>vs. Inl TypeError),
       construct_like = (\<lambda>d v. Inl TypeError) \<rparr>"

definition sample_var :: "string \<Rightarrow> string \<Rightarrow> string \<Rightarrow> int \<Rightarrow> int \<Rightarrow> varset" where
  "sample_var internal name grp row_key group_key =
     \<lparr> Name = internal, Label = name, ValueType = ''App::PropertyInteger'',
       Value = PInt 0, Enumerations = [], Description = [], VarGroup = grp,
       SortKey = Some row_key, Hidden = Some False, GroupSortKey = Some group_key,
       Expression = None, ReadOnly = False \<rparr>"

definition doc_abc :: document where
  "doc_abc =
     [sample_var ''XVar_0'' ''A'' ''Default'' 0 0, sample_var ''XVar_1'' ''B'' ''Default'' 1 0,
      sample_var ''XVar_2'' ''C'' ''Default'' 2 0, sample_var ''XVar_3'' ''M'' ''Metrics'' 0 1]"

definition doc_single :: document where
  "doc_single = [sample_var ''XVar_0'' ''A'' ''Default'' 0 0]"

definition doc_am :: document where
  "doc_am = [sample_var ''XVar_0'' ''A'' ''Default'' 0 0, sample_var ''XVar_1'' ''M'' ''Metrics'' 0 1]"

definition sample_list_var :: "string \<Rightarrow> pyval list \<Rightarrow> varset" where
  "sample_list_var t xs =
     \<lparr> Name = ''XVar_0'', Label = ''L'', ValueType = t,
       Value = PList xs, Enumerations = [], Description = [], VarGroup = ''Default'',
       SortKey = Some 0, Hidden = Some False, GroupSortKey = Some 0,
       Expression = None, ReadOnly = False \<rparr>"

definition doc_strings :: document where
  "doc_strings = [sample_list_var ''App::PropertyStringList'' [PStr ''1'', PStr ''x'']]"

definition doc_numbers :: document where
  "doc_numbers = [sample_list_var ''App::PropertyIntegerList'' [PInt 1, PInt 2, PInt 3]]"

definition doc_empty_list :: document where
  "doc_empty_list = [sample_list_var ''App::PropertyIntegerList'' []]"

definition doc_groups :: document where
  "doc_groups =
     [sample_var ''XVar_0'' ''A'' ''Default'' 0 0, sample_var ''XVar_1'' ''B'' ''Default'' 1 0,
      sample_var ''XVar_2'' ''C'' ''Metrics'' 0 1, sample_var ''XVar_3'' ''D'' ''Zones'' 0 5]"

definition doc_groups_moved :: document where
  "doc_groups_moved =
     [sample_var ''XVar_0'' ''A'' ''Default'' 0 0, sample_var ''XVar_1'' ''B'' ''Default'' 1 0,
      sample_var ''XVar_2'' ''C'' ''Metrics'' 0 2, sample_var ''XVar_3'' ''D'' ''Zones'' 0 1]"

section \<open>Properties of names\<close>

lemma not_space_alnum: "is_alpha c \<or> is_digit c \<or> c = CHR ''_'' \<Longrightarrow> \<not> is_space c"
  by (auto simp: is_alpha_def is_upper_def is_lower_def is_digit_def is_space_def
      uppers_def lowers_def digits_def spaces_def)

lemma strip_no_space:
  assumes "\<forall>c \<in> set s. \<not> is_space c"
  shows "strip s = s"
proof -
  have a: "dropWhile is_space s = s"
    using assms by (cases s) auto
  have "dropWhile is_space (rev s) = rev s"
    using assms by (cases "rev s") auto
  with a show ?thesis by (simp add: strip_def)
qed

lemma isidentifier_no_space: "isidentifier s \<Longrightarrow> c \<in> set s \<Longrightarrow> \<not> is_space c"
  by (cases s) (auto simp: isidentifier_def list_all_iff not_space_alnum)

lemma sanitize_identifier: "isidentifier s \<Longrightarrow> sanitize_var_name s = Inr s"
  using strip_no_space [of s] isidentifier_no_space [of s]
  by (auto simp: sanitize_var_name_def Let_def isidentifier_def)

lemma sanitize_Inr: "sanitize_var_name s = Inr n \<Longrightarrow> n = strip s \<and> isidentifier n"
  by (auto simp: sanitize_var_name_def Let_def split: if_splits)

section \<open>Properties of the document and of the loops of \<open>reorder\<close>\<close>

lemma find_label_Some: "find_label n doc = Some i \<Longrightarrow> i < length doc \<and> Label (doc ! i) = n"
  by (induction doc arbitrary: i) (auto split: if_splits)

lemma find_label_distinct:
  "distinct (map Label doc) \<Longrightarrow> i < length doc \<Longrightarrow> find_label (Label (doc ! i)) doc = Some i"
proof (induction doc arbitrary: i)
  case Nil
  then show ?case by simp
next
  case (Cons ob obs)
  show ?case
  proof (cases i)
    case 0
    then show ?thesis by simp
  next
    case (Suc j)
    with Cons.prems have "Label (obs ! j) \<in> set (map Label obs)"
      by simp
    moreover from Cons.prems have "Label ob \<notin> set (map Label obs)"
      by simp
    ultimately have "Label (obs ! j) \<noteq> Label ob"
      by metis
    with Cons Suc show ?thesis by simp
  qed
qed

lemma map_raise_all_Inr:
  "(\<And>i. i < length xs \<Longrightarrow> f (xs ! i) = Inr (g i)) \<Longrightarrow> map_raise f xs = Inr (map g [0 ..< length xs])"
proof (induction xs arbitrary: g)
  case Nil
  then show ?case by simp
next
  case (Cons x xs)
  have h: "f x = Inr (g 0)"
    using Cons.prems [of 0] by simp
  have "map_raise f xs = Inr (map (g \<circ> Suc) [0 ..< length xs])"
    by (rule Cons.IH) (use Cons.prems in force)
  with h show ?case
    by (simp add: upt_conv_Cons map_Suc_upt [symmetric] del: upt_Suc)
qed

lemma get_vars_wf: "wf_doc doc \<Longrightarrow> get_vars doc = Inr (vars_of doc)"
  unfolding get_vars_def vars_of_def
  by (rule map_raise_all_Inr)
     (auto simp: wf_doc_def bound_variable_def sanitize_identifier list_all_length
        get_varset_def find_label_distinct)

lemma vars_of_props:
  "v \<in> set (vars_of doc) \<Longrightarrow> snd v < length doc \<and> fst v = Label (doc ! snd v)"
  by (auto simp: vars_of_def)

lemma vars_of_snd: "map snd (vars_of doc) = [0 ..< length doc]"
  by (simp add: vars_of_def comp_def)

lemma vars_of_distinct: "distinct (map snd (vars_of doc))"
  by (simp add: vars_of_snd)

lemma bound_variable_in_vars:
  "bound_variable doc name = Inr v \<Longrightarrow> v \<in> set (vars_of doc)"
  by (auto simp: bound_variable_def get_varset_def vars_of_def image_iff
      dest!: find_label_Some split: sum.splits option.splits)

text \<open>Frame: writing a sort key changes nothing else.\<close>

lemma set_sort_key_length [simp]: "length (set_sort_key v k doc) = length doc"
  by (simp add: set_sort_key_def)

lemma set_sort_key_forget [simp]: "forget_keys (set_sort_key v k doc) = forget_keys doc"
proof (cases "snd v < length doc")
  case True
  have "(forget_keys doc)[snd v := forget_keys doc ! snd v] = forget_keys doc"
    by (rule list_update_id)
  with True show ?thesis
    by (simp add: forget_keys_def set_sort_key_def map_update)
next
  case False
  then have "doc[snd v := (doc ! snd v) \<lparr> SortKey := Some k \<rparr>] = doc"
    by (intro list_update_beyond) simp
  then show ?thesis
    by (simp add: set_sort_key_def)
qed

lemma set_sort_key_nth:
  "i < length doc \<Longrightarrow>
   set_sort_key v k doc ! i = (if i = snd v then (doc ! i) \<lparr> SortKey := Some k \<rparr> else doc ! i)"
  by (simp add: set_sort_key_def)

lemma renumber_length [simp]: "length (renumber vs p doc) = length doc"
  by (induction vs arbitrary: p doc) auto

lemma renumber_forget [simp]: "forget_keys (renumber vs p doc) = forget_keys doc"
  by (induction vs arbitrary: p doc) auto

lemma renumber_other:
  "i \<notin> snd ` set vs \<Longrightarrow> i < length doc \<Longrightarrow> renumber vs p doc ! i = doc ! i"
  by (induction vs arbitrary: p doc) (auto simp: set_sort_key_nth)

lemma renumber_key:
  "distinct (map snd vs) \<Longrightarrow> \<forall>v \<in> set vs. snd v < length doc \<Longrightarrow> j < length vs \<Longrightarrow>
   SortKey (renumber vs p doc ! snd (vs ! j)) = Some (p + int j)"
proof (induction vs arbitrary: p doc j)
  case Nil
  then show ?case by simp
next
  case (Cons v vs)
  show ?case
  proof (cases j)
    case 0
    with Cons.prems show ?thesis
      by (simp add: renumber_other set_sort_key_nth)
  next
    case (Suc j')
    with Cons.prems
    have "SortKey (renumber vs (p + 1) (set_sort_key v p doc) ! snd (vs ! j')) = Some (p + 1 + int j')"
      by (intro Cons.IH) auto
    with Suc show ?thesis by simp
  qed
qed

lemma shift_others_length [simp]: "length (fst (shift_others a vs pos off ins doc)) = length doc"
  by (induction vs arbitrary: pos off ins doc) auto

lemma shift_others_forget [simp]:
  "forget_keys (fst (shift_others a vs pos off ins doc)) = forget_keys doc"
  by (induction vs arbitrary: pos off ins doc) auto

lemma shift_others_other:
  "i \<notin> snd ` set vs \<Longrightarrow> i < length doc \<Longrightarrow> fst (shift_others a vs pos off ins doc) ! i = doc ! i"
  by (induction vs arbitrary: pos off ins doc) (auto simp: set_sort_key_nth)

text \<open>Once the offset is 1 it stays, and every later member gets its position plus 1.\<close>

lemma shift_others_shifted:
  "distinct (map snd vs) \<Longrightarrow> \<forall>v \<in> set vs. snd v < length doc \<Longrightarrow>
   snd (shift_others a vs pos 1 ins doc) = ins \<and>
   (\<forall>j < length vs. SortKey (fst (shift_others a vs pos 1 ins doc) ! snd (vs ! j)) = Some (pos + int j + 1))"
proof (induction vs arbitrary: pos doc)
  case Nil
  then show ?case by simp
next
  case (Cons v vs)
  let ?d = "set_sort_key v (pos + 1) doc"
  have IH: "snd (shift_others a vs (pos + 1) 1 ins ?d) = ins \<and>
     (\<forall>j < length vs. SortKey (fst (shift_others a vs (pos + 1) 1 ins ?d) ! snd (vs ! j)) = Some (pos + 1 + int j + 1))"
    using Cons.prems by (intro Cons.IH) auto
  have here: "SortKey (fst (shift_others a vs (pos + 1) 1 ins ?d) ! snd v) = Some (pos + 1)"
    using Cons.prems by (simp add: shift_others_other set_sort_key_nth)
  show ?case
  proof (intro conjI allI impI)
    show "snd (shift_others a (v # vs) pos 1 ins doc) = ins"
      using IH by simp
  next
    fix j assume "j < length (v # vs)"
    then show "SortKey (fst (shift_others a (v # vs) pos 1 ins doc) ! snd ((v # vs) ! j)) = Some (pos + int j + 1)"
      using IH here by (cases j) auto
  qed
qed

text \<open>Moving to the first place: the test holds at once.\<close>

lemma shift_others_first:
  assumes "distinct (map snd vs)" and "\<forall>v \<in> set vs. snd v < length doc" and "\<forall>p. a p" and "vs \<noteq> []"
  shows "snd (shift_others a vs pos 0 ins doc) = pos \<and>
   (\<forall>j < length vs. SortKey (fst (shift_others a vs pos 0 ins doc) ! snd (vs ! j)) = Some (pos + int j + 1))"
proof -
  from assms(4) obtain v vs' where vs: "vs = v # vs'"
    by (cases vs) auto
  let ?d = "set_sort_key v (pos + 1) doc"
  have sh: "snd (shift_others a vs' (pos + 1) 1 pos ?d) = pos \<and>
     (\<forall>j < length vs'. SortKey (fst (shift_others a vs' (pos + 1) 1 pos ?d) ! snd (vs' ! j)) = Some (pos + 1 + int j + 1))"
    using assms(1,2) vs by (intro shift_others_shifted) auto
  have here: "SortKey (fst (shift_others a vs' (pos + 1) 1 pos ?d) ! snd v) = Some (pos + 1)"
    using assms(1,2) vs by (simp add: shift_others_other set_sort_key_nth)
  show ?thesis
  proof (intro conjI allI impI)
    show "snd (shift_others a vs pos 0 ins doc) = pos"
      using sh vs assms(3) by simp
  next
    fix j assume "j < length vs"
    then show "SortKey (fst (shift_others a vs pos 0 ins doc) ! snd (vs ! j)) = Some (pos + int j + 1)"
      using sh here vs assms(3) by (cases j) auto
  qed
qed

text \<open>Moving to the last place: the test never holds.\<close>

lemma shift_others_last:
  "distinct (map snd vs) \<Longrightarrow> \<forall>v \<in> set vs. snd v < length doc \<Longrightarrow> \<forall>p. \<not> a p \<Longrightarrow>
   snd (shift_others a vs pos 0 ins doc) = ins \<and>
   (\<forall>j < length vs. SortKey (fst (shift_others a vs pos 0 ins doc) ! snd (vs ! j)) = Some (pos + int j))"
proof (induction vs arbitrary: pos doc)
  case Nil
  then show ?case by simp
next
  case (Cons v vs)
  let ?d = "set_sort_key v pos doc"
  have IH: "snd (shift_others a vs (pos + 1) 0 ins ?d) = ins \<and>
     (\<forall>j < length vs. SortKey (fst (shift_others a vs (pos + 1) 0 ins ?d) ! snd (vs ! j)) = Some (pos + 1 + int j))"
    using Cons.prems by (intro Cons.IH) auto
  have here: "SortKey (fst (shift_others a vs (pos + 1) 0 ins ?d) ! snd v) = Some pos"
    using Cons.prems by (simp add: shift_others_other set_sort_key_nth)
  show ?case
  proof (intro conjI allI impI)
    show "snd (shift_others a (v # vs) pos 0 ins doc) = ins"
      using IH Cons.prems(3) by simp
  next
    fix j assume "j < length (v # vs)"
    then show "SortKey (fst (shift_others a (v # vs) pos 0 ins doc) ! snd ((v # vs) ! j)) = Some (pos + int j)"
      using IH here Cons.prems(3) by (cases j) auto
  qed
qed

lemma forget_keys_length: "forget_keys a = forget_keys b \<Longrightarrow> length a = length b"
  by (metis forget_keys_def length_map)

lemma forget_keys_fields:
  assumes "forget_keys a = forget_keys b"
  shows "map Label a = map Label b" and "map Name a = map Name b"
    and "map VarGroup a = map VarGroup b" and "map GroupSortKey a = map GroupSortKey b"
proof -
  have "map Label (forget_keys a) = map Label (forget_keys b)"
    and "map Name (forget_keys a) = map Name (forget_keys b)"
    and "map VarGroup (forget_keys a) = map VarGroup (forget_keys b)"
    and "map GroupSortKey (forget_keys a) = map GroupSortKey (forget_keys b)"
    using assms by simp_all
  then show "map Label a = map Label b" and "map Name a = map Name b"
    and "map VarGroup a = map VarGroup b" and "map GroupSortKey a = map GroupSortKey b"
    by (simp_all add: forget_keys_def comp_def)
qed

lemma forget_keys_nth:
  assumes "forget_keys a = forget_keys b" and "i < length b"
  shows "Label (a ! i) = Label (b ! i)" and "Name (a ! i) = Name (b ! i)"
    and "VarGroup (a ! i) = VarGroup (b ! i)"
proof -
  have len: "i < length a"
    using assms forget_keys_length by metis
  show "Label (a ! i) = Label (b ! i)"
    using forget_keys_fields(1) [OF assms(1)] len assms(2) by (metis nth_map)
  show "Name (a ! i) = Name (b ! i)"
    using forget_keys_fields(2) [OF assms(1)] len assms(2) by (metis nth_map)
  show "VarGroup (a ! i) = VarGroup (b ! i)"
    using forget_keys_fields(3) [OF assms(1)] len assms(2) by (metis nth_map)
qed

lemma forget_keys_wf: "forget_keys a = forget_keys b \<Longrightarrow> wf_doc b \<Longrightarrow> wf_doc a"
  using forget_keys_fields(1,2) [of a b] by (simp add: wf_doc_def)

lemma forget_keys_vars: "forget_keys a = forget_keys b \<Longrightarrow> vars_of a = vars_of b"
  using forget_keys_length [of a b] forget_keys_nth(1) [of a b]
  by (simp add: vars_of_def)

lemma forget_keys_group:
  "forget_keys a = forget_keys b \<Longrightarrow> snd v < length b \<Longrightarrow> var_group a v = var_group b v"
  using forget_keys_nth(3) [of a b "snd v"] by (simp add: var_group_def group_of_def)

text \<open>The first and the last element of a sorted list.\<close>

lemma sorted_least_is_hd:
  assumes "sorted (map f ys)" and "x \<in> set ys" and "\<forall>y \<in> set ys. y \<noteq> x \<longrightarrow> f x < f y"
  shows "index_of x ys = 0"
proof (cases ys)
  case Nil
  then show ?thesis by simp
next
  case (Cons y ys')
  have "f y \<le> f x"
    using assms(1,2) Cons by auto
  then have "y = x"
    using assms(3) Cons by (metis list.set_intros(1) not_le)
  with Cons show ?thesis by simp
qed

lemma sorted_le_last: "sorted (map f ys) \<Longrightarrow> x \<in> set ys \<Longrightarrow> f x \<le> f (last ys)"
  by (induction ys) auto

lemma index_of_last: "distinct ys \<Longrightarrow> ys \<noteq> [] \<Longrightarrow> index_of (last ys) ys = length ys - 1"
  by (induction ys) auto

lemma sorted_greatest_is_last:
  assumes "sorted (map f ys)" and "x \<in> set ys" and "distinct ys"
    and "\<forall>y \<in> set ys. y \<noteq> x \<longrightarrow> f y < f x"
  shows "index_of x ys = length ys - 1"
proof -
  from assms(2) have ne: "ys \<noteq> []" by auto
  have "f x \<le> f (last ys)"
    using assms(1,2) by (rule sorted_le_last)
  then have "last ys = x"
    using assms(4) ne by (metis last_in_set not_le)
  then show ?thesis
    using index_of_last [OF assms(3) ne] by simp
qed

text \<open>What \<open>reorder\<close> leaves behind when the move is to the first or to the last place.\<close>

lemma vars_of_inj: "inj_on snd (set (vars_of doc))"
  using vars_of_distinct [of doc] by (simp add: distinct_map)

lemma vars_of_distinct_list: "distinct (vars_of doc)"
  using vars_of_distinct [of doc] by (simp add: distinct_map)

lemma reorder_keys:
  assumes wf: "wf_doc doc" and self: "self \<in> set (vars_of doc)"
    and d: "d = NegInf \<or> d = PosInf"
  shows "snd (reorder self d doc) = Inr ()"
    and "forget_keys (fst (reorder self d doc)) = forget_keys doc"
    and "\<forall>w \<in> set (sorted_group doc (var_group doc self) (vars_of doc)). w \<noteq> self \<longrightarrow>
           (\<exists>k s. SortKey (fst (reorder self d doc) ! snd w) = Some k
                \<and> SortKey (fst (reorder self d doc) ! snd self) = Some s
                \<and> (if d = NegInf then s < k else k < s))"
proof -
  define G where "G = sorted_group doc (var_group doc self) (vars_of doc)"
  define doc1 where "doc1 = renumber G 0 doc"
  define others where "others = filter (\<lambda>v. Name (doc1 ! snd v) \<noteq> Name (doc1 ! snd self)) G"
  have gv: "get_vars doc = Inr (vars_of doc)"
    by (rule get_vars_wf [OF wf])
  have Gset: "set G = {v \<in> set (vars_of doc). var_group doc v = var_group doc self}"
    by (simp add: G_def sorted_group_def)
  have selfG: "self \<in> set G"
    using Gset self by simp
  have Gsub: "\<forall>v \<in> set G. snd v < length doc"
    using Gset vars_of_props by auto
  have Ginj: "inj_on snd (set G)"
    using vars_of_inj [of doc] Gset by (auto simp: inj_on_def)
  have Gd: "distinct G"
    by (simp add: G_def sorted_group_def vars_of_distinct_list)
  have Gdist: "distinct (map snd G)"
    using Gd Ginj by (simp add: distinct_map)
  obtain p where p: "p < length G" "G ! p = self"
    using selfG by (auto simp: in_set_conv_nth)
  have key: "SortKey (doc1 ! snd self) = Some (int p)"
    using renumber_key [OF Gdist Gsub p(1), of 0] p(2) by (simp add: doc1_def)
  have selflen: "snd self < length doc"
    using Gsub selfG by blast
  have len1: "length doc1 = length doc"
    by (simp add: doc1_def)
  have fk1: "forget_keys doc1 = forget_keys doc"
    by (simp add: doc1_def)
  have names: "(Name (doc1 ! snd v) \<noteq> Name (doc1 ! snd self)) = (v \<noteq> self)" if "v \<in> set G" for v
  proof -
    have v: "snd v < length doc"
      using Gsub that by blast
    have "Name (doc1 ! snd v) = Name (doc ! snd v)" "Name (doc1 ! snd self) = Name (doc ! snd self)"
      using forget_keys_nth(2) [OF fk1] v selflen by simp_all
    moreover have "(Name (doc ! snd v) = Name (doc ! snd self)) = (snd v = snd self)"
      using wf v selflen nth_eq_iff_index_eq [of "map Name doc" "snd v" "snd self"]
      by (simp add: wf_doc_def)
    moreover have "(snd v = snd self) = (v = self)"
      using Ginj that selfG by (auto simp: inj_on_def)
    ultimately show ?thesis by simp
  qed
  have others: "others = filter (\<lambda>v. v \<noteq> self) G"
    unfolding others_def by (rule filter_cong) (simp_all add: names)
  have odist: "distinct (map snd others)"
    using Gdist by (simp add: others distinct_map_filter)
  have osub: "\<forall>v \<in> set others. snd v < length doc1"
    using Gsub by (simp add: others len1)
  have self_not_o: "snd self \<notin> snd ` set others"
  proof
    assume "snd self \<in> snd ` set others"
    then obtain w where "w \<in> set G" "w \<noteq> self" "snd w = snd self"
      unfolding others by auto
    then show False
      using Ginj selfG by (auto simp: inj_on_def)
  qed
  define r where "r = shift_others (reaches (int p) d) others 0 0 (- 1) doc1"
  define K where "K = (if snd r > - 1 then snd r else int (length G))"
  define doc' where "doc' = set_sort_key self K (fst r)"
  have lenr: "length (fst r) = length doc"
    by (simp add: r_def len1)
  have res: "reorder self d doc = (doc', Inr ())"
    using key unfolding doc'_def K_def r_def others_def doc1_def G_def
    by (simp add: reorder_def gv Let_def split_beta)
  show "snd (reorder self d doc) = Inr ()"
    by (simp add: res)
  show "forget_keys (fst (reorder self d doc)) = forget_keys doc"
    by (simp add: res doc'_def r_def fk1)
  have selfkey: "SortKey (doc' ! snd self) = Some K"
    using selflen lenr by (simp add: doc'_def set_sort_key_nth)
  have okey: "doc' ! snd w = fst r ! snd w" if "w \<in> set others" for w
  proof -
    have "snd w \<noteq> snd self"
      using that self_not_o by (metis imageI)
    moreover have "snd w < length (fst r)"
      using that osub lenr len1 by simp
    ultimately show ?thesis
      by (simp add: doc'_def set_sort_key_nth)
  qed
  have first: "snd r = 0 \<and> (\<forall>j < length others. SortKey (fst r ! snd (others ! j)) = Some (int j + 1))"
    if "d = NegInf" "others \<noteq> []"
  proof -
    have "\<forall>q. reaches (int p) d q"
      using that(1) by simp
    from shift_others_first [OF odist osub this that(2), of 0 "- 1"]
    show ?thesis by (simp add: r_def)
  qed
  have last: "snd r = - 1 \<and> (\<forall>j < length others. SortKey (fst r ! snd (others ! j)) = Some (int j))"
    if "d = PosInf"
  proof -
    have "\<forall>q. \<not> reaches (int p) d q"
      using that by simp
    from shift_others_last [OF odist osub this, of 0 "- 1"]
    show ?thesis by (simp add: r_def)
  qed
  have "\<exists>k s. SortKey (doc' ! snd w) = Some k \<and> SortKey (doc' ! snd self) = Some s
                \<and> (if d = NegInf then s < k else k < s)"
    if w: "w \<in> set G" "w \<noteq> self" for w
  proof -
    have wo: "w \<in> set others"
      using w by (simp add: others)
    then obtain j where j: "j < length others" "others ! j = w"
      by (auto simp: in_set_conv_nth)
    have lo: "length others \<le> length G"
      by (simp add: others)
    have ne: "others \<noteq> []"
      using wo by auto
    show ?thesis
    proof (cases "d = NegInf")
      case True
      with first ne j have "snd r = 0" "SortKey (fst r ! snd w) = Some (int j + 1)"
        by auto
      then have "SortKey (doc' ! snd w) = Some (int j + 1)" "SortKey (doc' ! snd self) = Some 0"
        using okey [OF wo] selfkey by (simp_all add: K_def)
      with True show ?thesis by simp
    next
      case False
      with d have "d = PosInf" by simp
      with last j have "snd r = - 1" "SortKey (fst r ! snd w) = Some (int j)"
        by auto
      then have "SortKey (doc' ! snd w) = Some (int j)" "SortKey (doc' ! snd self) = Some (int (length G))"
        using okey [OF wo] selfkey by (simp_all add: K_def)
      with False j(1) lo show ?thesis by simp
    qed
  qed
  then show "\<forall>w \<in> set (sorted_group doc (var_group doc self) (vars_of doc)). w \<noteq> self \<longrightarrow>
           (\<exists>k s. SortKey (fst (reorder self d doc) ! snd w) = Some k
                \<and> SortKey (fst (reorder self d doc) ! snd self) = Some s
                \<and> (if d = NegInf then s < k else k < s))"
    by (simp add: res G_def)
qed

lemma rank_after_reorder:
  assumes wf: "wf_doc doc" and self: "self \<in> set (vars_of doc)"
    and d: "d = NegInf \<or> d = PosInf"
  shows "rank_in_group (fst (reorder self d doc)) self =
           (if d = NegInf then 0 else length (group_members doc (var_group doc self)) - 1)"
proof -
  define doc' where "doc' = fst (reorder self d doc)"
  define F where "F = filter (\<lambda>v. var_group doc v = var_group doc self) (vars_of doc)"
  have fk: "forget_keys doc' = forget_keys doc"
    unfolding doc'_def by (rule reorder_keys(2) [OF wf self d])
  have wf': "wf_doc doc'"
    using fk wf by (rule forget_keys_wf)
  have V: "vars_of doc' = vars_of doc"
    using fk by (rule forget_keys_vars)
  have grp: "var_group doc' v = var_group doc v" if "v \<in> set (vars_of doc)" for v
    using forget_keys_group [OF fk] vars_of_props [OF that] by simp
  have F': "filter (\<lambda>v. var_group doc' v = var_group doc self) (vars_of doc) = F"
    unfolding F_def by (rule filter_cong) (simp_all add: grp)
  have gm': "group_members doc' (var_group doc' self) = sort_key (sort_key_of doc') F"
    by (simp add: group_members_def get_vars_wf [OF wf'] V grp [OF self] sorted_group_def F')
  have G: "sorted_group doc (var_group doc self) (vars_of doc) = sort_key (sort_key_of doc) F"
    by (simp add: sorted_group_def F_def)
  have gm: "group_members doc (var_group doc self) = sort_key (sort_key_of doc) F"
    by (simp add: group_members_def get_vars_wf [OF wf] G)
  have selfF: "self \<in> set F"
    using self by (simp add: F_def)
  have Fd: "distinct F"
    by (simp add: F_def vars_of_distinct_list)
  have cmp: "if d = NegInf then sort_key_of doc' self < sort_key_of doc' w
             else sort_key_of doc' w < sort_key_of doc' self"
    if w: "w \<in> set F" "w \<noteq> self" for w
  proof -
    have "w \<in> set (sorted_group doc (var_group doc self) (vars_of doc))"
      using w(1) by (simp add: G)
    with reorder_keys(3) [OF wf self d] w(2)
    obtain k s where ks: "SortKey (doc' ! snd w) = Some k" "SortKey (doc' ! snd self) = Some s"
        "if d = NegInf then s < k else k < s"
      unfolding doc'_def by blast
    have "w \<in> set (vars_of doc)"
      using w(1) by (simp add: F_def)
    then have "var_group doc' w = var_group doc' self"
      using w(1) grp self by (simp add: F_def)
    with ks show ?thesis
      by (simp add: sort_key_of_def)
  qed
  let ?ys = "sort_key (sort_key_of doc') F"
  have s: "sorted (map (sort_key_of doc') ?ys)"
    by (rule sorted_sort_key)
  have m: "self \<in> set ?ys" and dy: "distinct ?ys"
    using selfF Fd by simp_all
  have rk: "rank_in_group doc' self = index_of self ?ys"
    by (simp add: rank_in_group_def gm')
  have "rank_in_group doc' self =
          (if d = NegInf then 0 else length (group_members doc (var_group doc self)) - 1)"
  proof (cases "d = NegInf")
    case True
    have "index_of self ?ys = 0"
      using s m cmp True by (intro sorted_least_is_hd [where f = "sort_key_of doc'"]) auto
    with True rk show ?thesis
      by simp
  next
    case False
    have "index_of self ?ys = length ?ys - 1"
      using s m dy cmp False by (intro sorted_greatest_is_last [where f = "sort_key_of doc'"]) auto
    with False rk show ?thesis
      by (simp add: gm)
  qed
  then show ?thesis
    by (simp only: doc'_def)
qed

text \<open>
  Claim C5. In a document whose labels are distinct identifiers and whose internal
  names are distinct, \<open>Variable.reorder\<close> with the negative infinity returns and leaves
  the variable at rank 0 of its group, in the order by sort key and then name; with the
  positive infinity it returns and leaves the variable at the last rank, the size of
  the group less one. The starting position plays no part.
\<close>

theorem reorder_sentinel_ranks:
  assumes "wf_doc doc" and "bound_variable doc name = Inr self"
  shows "snd (reorder self NegInf doc) = Inr () \<and>
         rank_in_group (fst (reorder self NegInf doc)) self = 0 \<and>
         snd (reorder self PosInf doc) = Inr () \<and>
         rank_in_group (fst (reorder self PosInf doc)) self =
           length (group_members doc (var_group doc self)) - 1"
proof -
  have self: "self \<in> set (vars_of doc)"
    using assms(2) by (rule bound_variable_in_vars)
  show ?thesis
    using reorder_keys(1) [OF assms(1) self, of NegInf] reorder_keys(1) [OF assms(1) self, of PosInf]
      rank_after_reorder [OF assms(1) self, of NegInf] rank_after_reorder [OF assms(1) self, of PosInf]
    by simp
qed

theorem reorder_sentinel_ranks_witness:
  "wf_doc doc_abc \<and> bound_variable doc_abc ''B'' = Inr (''B'', 1) \<and>
   snd (reorder (''B'', 1) NegInf doc_abc) = Inr () \<and>
   rank_in_group (fst (reorder (''B'', 1) NegInf doc_abc)) (''B'', 1) = 0 \<and>
   snd (reorder (''B'', 1) PosInf doc_abc) = Inr () \<and>
   rank_in_group (fst (reorder (''B'', 1) PosInf doc_abc)) (''B'', 1) = 2"
proof -
  have a: "wf_doc doc_abc"
    by code_simp
  have b: "bound_variable doc_abc ''B'' = Inr (''B'', 1)"
    by code_simp
  have c: "length (group_members doc_abc (var_group doc_abc (''B'', 1))) = 3"
    by code_simp
  from reorder_sentinel_ranks [OF a b] a b c show ?thesis
    by simp
qed

text \<open>
  Claim C1, as the code has it. A group of one variable \<open>A\<close> with sort key 0: after
  \<open>reorder\<close> by 0 the only key of the group is 1, where the dense set is \<open>{0}\<close>. The
  moved variable found no place before another one, and is given the length of the
  list that still counts it.
\<close>

theorem reorder_single_variable:
  "bound_variable doc_single ''A'' = Inr (''A'', 0) \<and>
   reorder (''A'', 0) (Fin 0) doc_single = ([sample_var ''XVar_0'' ''A'' ''Default'' 1 0], Inr ())"
  by code_simp

text \<open>
  The same in a group of three: moving the middle variable down by one leaves the keys
  0, 1 and 3.
\<close>

lemma reorder_down_not_dense:
  "map SortKey (fst (reorder (''B'', 1) (Fin 1) doc_abc)) = [Some 0, Some 3, Some 1, Some 0]"
  by code_simp

section \<open>Creating variables and moving them between groups\<close>

lemma create_var_True:
  assumes "create_var h name t v opts d e g doc = (doc', Inr True)"
  shows "\<exists>ob. doc' = doc @ [ob] \<and> Label ob = strip name \<and> SortKey ob = Some 0
            \<and> VarGroup ob = title (if g = [] then ''Default'' else g)"
  using assms
  by (auto simp: create_var_def Let_def new_varset_def dest!: sanitize_Inr
      split: sum.splits if_splits option.splits)

lemma existing_var_name_append:
  "lower (Label ob) = lower n \<Longrightarrow> existing_var_name n (doc @ [ob]) \<noteq> None"
  by (auto simp: existing_var_name_def find_None_iff)

text \<open>
  Claim C9. Two identifiers that are equal up to letter case: once \<open>create_var\<close> has
  created a variable under the first, \<open>create_var\<close> under the second returns false,
  whatever its other arguments, and the document is as it was.
\<close>

theorem create_var_case_insensitive:
  assumes "isidentifier n1" and "isidentifier n2" and "lower n1 = lower n2"
    and "create_var h n1 t1 v1 opts1 d1 e1 g1 doc = (doc1, Inr True)"
  shows "create_var h n2 t2 v2 opts2 d2 e2 g2 doc1 = (doc1, Inr False)"
proof -
  from assms(4) obtain ob where ob: "doc1 = doc @ [ob]" "Label ob = strip n1"
    using create_var_True by blast
  have "strip n1 = n1"
    using assms(1) sanitize_identifier sanitize_Inr by fastforce
  with ob assms(3) have "existing_var_name n2 doc1 \<noteq> None"
    by (simp add: existing_var_name_append)
  with assms(2) show ?thesis
    by (simp add: create_var_def sanitize_identifier)
qed

theorem create_var_case_insensitive_witness:
  "isidentifier ''Width'' \<and> isidentifier ''WIDTH'' \<and> lower ''Width'' = lower ''WIDTH'' \<and>
   create_var sample_env ''Width'' ''App::PropertyInteger'' PNone None [] None ''Default'' []
     = ([sample_var ''XVar_0'' ''Width'' ''Default'' 0 0], Inr True) \<and>
   create_var sample_env ''WIDTH'' ''App::PropertyString'' (PStr ''x'') None [] None ''Other''
       [sample_var ''XVar_0'' ''Width'' ''Default'' 0 0]
     = ([sample_var ''XVar_0'' ''Width'' ''Default'' 0 0], Inr False)"
proof -
  have a: "isidentifier ''Width''" and b: "isidentifier ''WIDTH''"
    and c: "lower ''Width'' = lower ''WIDTH''"
    by code_simp+
  have d: "create_var sample_env ''Width'' ''App::PropertyInteger'' PNone None [] None ''Default'' []
     = ([sample_var ''XVar_0'' ''Width'' ''Default'' 0 0], Inr True)"
    by code_simp
  from create_var_case_insensitive [OF a b c d] a b c d show ?thesis
    by simp
qed

text \<open>
  Claim C2, as stated, fails: a variable \<open>B\<close> created in the group of \<open>A\<close> gets the sort
  key 0, and the group had one variable.
\<close>

theorem create_var_not_appended:
  "snd (create_var sample_env ''B'' ''App::PropertyInteger'' PNone None [] None ''Default'' doc_single)
     = Inr True \<and>
   group_of (last (fst (create_var sample_env ''B'' ''App::PropertyInteger'' PNone None [] None
     ''Default'' doc_single))) = ''Default'' \<and>
   group_size doc_single ''Default'' = 1 \<and>
   SortKey (last (fst (create_var sample_env ''B'' ''App::PropertyInteger'' PNone None [] None
     ''Default'' doc_single))) = Some 0"
  by code_simp

text \<open>
  Claim C2, amended. A successful \<open>create_var\<close> leaves the existing variables as they
  were and adds the new one behind them with the sort key 0; that key is the number of
  variables its group had exactly when the group had none.
\<close>

theorem create_var_sort_key_zero:
  assumes "create_var h name t v opts d e g doc = (doc', Inr True)"
  shows "butlast doc' = doc \<and> SortKey (last doc') = Some 0 \<and>
         (SortKey (last doc') = Some (int (group_size doc (group_of (last doc'))))
            \<longleftrightarrow> group_size doc (group_of (last doc')) = 0)"
proof -
  from assms obtain ob where "doc' = doc @ [ob]" "SortKey ob = Some 0"
    using create_var_True by blast
  then show ?thesis by auto
qed

theorem create_var_sort_key_zero_witness:
  "create_var sample_env ''B'' ''App::PropertyInteger'' PNone None [] None ''Default'' doc_single
     = (doc_single @ [sample_var ''XVar_1'' ''B'' ''Default'' 0 0], Inr True) \<and>
   butlast (doc_single @ [sample_var ''XVar_1'' ''B'' ''Default'' 0 0]) = doc_single \<and>
   SortKey (last (doc_single @ [sample_var ''XVar_1'' ''B'' ''Default'' 0 0])) = Some 0"
proof -
  have a: "create_var sample_env ''B'' ''App::PropertyInteger'' PNone None [] None ''Default'' doc_single
     = (doc_single @ [sample_var ''XVar_1'' ''B'' ''Default'' 0 0], Inr True)"
    by code_simp
  from create_var_sort_key_zero [OF a] a show ?thesis
    by simp
qed

text \<open>
  Claim C4, as the code has it. \<open>A\<close> is in \<open>Default\<close> with group key 0 and \<open>M\<close> in
  \<open>Metrics\<close> with group key 1. The group setter moves \<open>A\<close> to \<open>Metrics\<close> and leaves its
  group key at 0. \<open>create_var\<close> with the group written \<open>metrics\<close> stores the group as
  \<open>Metrics\<close> and looks the key up under \<open>metrics\<close>, finds none and gives the new
  variable the key 2. Either way two variables of \<open>Metrics\<close> differ in their group key.
\<close>

theorem group_key_disagreement:
  "set_var_group ''A'' ''Metrics'' doc_am =
     ([sample_var ''XVar_0'' ''A'' ''Metrics'' 0 0, sample_var ''XVar_1'' ''M'' ''Metrics'' 0 1], Inr ()) \<and>
   create_var sample_env ''B'' ''App::PropertyInteger'' PNone None [] None ''metrics'' doc_am =
     (doc_am @ [sample_var ''XVar_2'' ''B'' ''Metrics'' 0 2], Inr True)"
  by code_simp

section \<open>Changing the type\<close>

lemma get_varset_Some: "get_varset name doc = Some i \<Longrightarrow> i < length doc \<and> Label (doc ! i) = name"
  by (simp add: get_varset_def find_label_Some)

lemma map_raise_Inr:
  "map f xs = map Inr ys \<Longrightarrow>
   map_raise (\<lambda>x. case f x of Inl e \<Rightarrow> Inl e | Inr y \<Rightarrow> Inr (g y)) xs = Inr (map g ys)"
  by (induction xs arbitrary: ys) auto

lemma map_raise_Inl: "x \<in> set xs \<Longrightarrow> f x = Inl e \<Longrightarrow> \<exists>e'. map_raise f xs = Inl e'"
  by (induction xs) (auto split: sum.splits)

lemma map_raise_plain_Inr: "map f xs = map Inr ys \<Longrightarrow> map_raise f xs = Inr ys"
  by (induction xs arbitrary: ys) auto

text \<open>The list-to-list branch of \<open>set_var_type\<close>.\<close>

lemma set_var_type_list_to_list:
  assumes "get_varset name doc = Some i"
    and "new_type \<in> set (supportedProperties h)"
    and "ValueType (doc ! i) = old_type" and "Value (doc ! i) = PList data"
    and "endswith old_type ''List''" and "endswith new_type ''List''"
    and "old_type \<noteq> new_type" and "old_type \<noteq> new_type @ ''List''"
    and "new_type \<noteq> old_type @ ''List''"
  shows "set_var_type h name new_type None doc =
           (doc[i := assign_suppressed h
                       (case convert_list_type h data new_type of
                          Inl e \<Rightarrow> Inl e | Inr xs \<Rightarrow> Inr (PList xs))
                       (replace_value_property h new_type (doc ! i))],
            Inr True)"
  using assms by (simp add: set_var_type_def Let_def)

lemma assign_suppressed_Inl [simp]: "assign_suppressed h (Inl e) ob = ob"
  by (simp add: assign_suppressed_def)

lemma assign_suppressed_Inr:
  "assign_value h (ValueType ob) v = Inr stored \<Longrightarrow>
   assign_suppressed h (Inr v) ob = ob \<lparr> Value := stored \<rparr>"
  by (simp add: assign_suppressed_def assign_def)

lemma assign_suppressed_type [simp]: "ValueType (assign_suppressed h r ob) = ValueType ob"
  by (auto simp: assign_suppressed_def assign_def split: sum.splits)

text \<open>
  Claim C6, amended. A variable of one list type holding a list is migrated by
  \<open>set_var_type\<close>, with no converter, to another list type that the host supports.
  The call returns true and raises nothing, and the variable has the new type. Its
  value: for a string target the elements turned into strings; for an integer target
  the elements parsed as integers when every one of them parses; for a float target
  the elements cast to floats when every one of them casts; in each case provided the
  host stores the list. When one element of the list does not parse (integer target)
  or does not cast (float target), no element is kept: the value is the default of the
  new property.
\<close>

theorem list_to_list_conversion:
  assumes "get_varset name doc = Some i"
    and "new_type \<in> set (supportedProperties h)"
    and "ValueType (doc ! i) = old_type" and "Value (doc ! i) = PList data"
    and "endswith old_type ''List''" and "endswith new_type ''List''"
    and "old_type \<noteq> new_type" and "old_type \<noteq> new_type @ ''List''"
    and "new_type \<noteq> old_type @ ''List''"
  shows "snd (set_var_type h name new_type None doc) = Inr True \<and>
    ValueType (fst (set_var_type h name new_type None doc) ! i) = new_type \<and>
    (new_type = ''App::PropertyStringList'' \<and>
       assign_value h new_type (PList (map (\<lambda>x. PStr (py_str h x)) data)) = Inr stored \<longrightarrow>
       Value (fst (set_var_type h name new_type None doc) ! i) = stored) \<and>
    (new_type = ''App::PropertyIntegerList'' \<and> map (py_int h) data = map Inr ns \<and>
       assign_value h new_type (PList (map PInt ns)) = Inr stored \<longrightarrow>
       Value (fst (set_var_type h name new_type None doc) ! i) = stored) \<and>
    (new_type = ''App::PropertyIntegerList'' \<and> (\<exists>x \<in> set data. \<exists>e. py_int h x = Inl e) \<longrightarrow>
       Value (fst (set_var_type h name new_type None doc) ! i) = default_value h new_type) \<and>
    (new_type = ''App::PropertyFloatList'' \<and> map (py_float h) data = map Inr xs \<and>
       assign_value h new_type (PList xs) = Inr stored \<longrightarrow>
       Value (fst (set_var_type h name new_type None doc) ! i) = stored) \<and>
    (new_type = ''App::PropertyFloatList'' \<and> (\<exists>x \<in> set data. \<exists>e. py_float h x = Inl e) \<longrightarrow>
       Value (fst (set_var_type h name new_type None doc) ! i) = default_value h new_type)"
proof -
  let ?fresh = "replace_value_property h new_type (doc ! i)"
  let ?conv = "case convert_list_type h data new_type of Inl e \<Rightarrow> Inl e | Inr xs \<Rightarrow> Inr (PList xs)"
  have i: "i < length doc"
    using assms(1) get_varset_Some by blast
  have res: "set_var_type h name new_type None doc = (doc[i := assign_suppressed h ?conv ?fresh], Inr True)"
    using assms by (rule set_var_type_list_to_list)
  have at: "fst (set_var_type h name new_type None doc) ! i = assign_suppressed h ?conv ?fresh"
    using i by (simp add: res)
  have ft: "ValueType ?fresh = new_type" and fv: "Value ?fresh = default_value h new_type"
    by (simp_all add: replace_value_property_def)
  have a: "snd (set_var_type h name new_type None doc) = Inr True"
    by (simp add: res)
  have b: "ValueType (fst (set_var_type h name new_type None doc) ! i) = new_type"
    by (simp add: at ft)
  have c: "Value (fst (set_var_type h name new_type None doc) ! i) = stored"
    if "new_type = ''App::PropertyStringList''"
      "assign_value h new_type (PList (map (\<lambda>x. PStr (py_str h x)) data)) = Inr stored"
  proof -
    have "convert_list_type h data new_type = Inr (map (\<lambda>x. PStr (py_str h x)) data)"
      using that(1) by (simp add: convert_list_type_def)
    then show ?thesis
      using that(2) by (simp add: at assign_suppressed_Inr ft)
  qed
  have d: "Value (fst (set_var_type h name new_type None doc) ! i) = stored"
    if "new_type = ''App::PropertyIntegerList''" "map (py_int h) data = map Inr ns"
      "assign_value h new_type (PList (map PInt ns)) = Inr stored"
  proof -
    have "convert_list_type h data new_type = Inr (map PInt ns)"
      using that(1,2) map_raise_Inr [of "py_int h" data ns PInt]
      by (auto simp: convert_list_type_def)
    then show ?thesis
      using that(3) by (simp add: at assign_suppressed_Inr ft)
  qed
  have e: "Value (fst (set_var_type h name new_type None doc) ! i) = default_value h new_type"
    if nt: "new_type = ''App::PropertyIntegerList''" and ex: "\<exists>x \<in> set data. \<exists>e. py_int h x = Inl e"
  proof -
    from ex obtain x e where x: "x \<in> set data" "py_int h x = Inl e"
      by blast
    then have "data \<noteq> []"
      by auto
    moreover have "\<exists>e'. map_raise (\<lambda>item. case py_int h item of Inl e \<Rightarrow> Inl e | Inr n \<Rightarrow> Inr (PInt n)) data = Inl e'"
      using x by (intro map_raise_Inl [where x = x and e = e]) simp_all
    ultimately obtain e' where "convert_list_type h data new_type = Inl e'"
      using nt by (auto simp: convert_list_type_def)
    then show ?thesis
      by (simp add: at fv)
  qed
  have f: "Value (fst (set_var_type h name new_type None doc) ! i) = stored"
    if "new_type = ''App::PropertyFloatList''" "map (py_float h) data = map Inr xs"
      "assign_value h new_type (PList xs) = Inr stored"
  proof -
    have "convert_list_type h data new_type = Inr xs"
      using that(1,2) map_raise_plain_Inr [of "py_float h" data xs]
      by (auto simp: convert_list_type_def)
    then show ?thesis
      using that(3) by (simp add: at assign_suppressed_Inr ft)
  qed
  have g: "Value (fst (set_var_type h name new_type None doc) ! i) = default_value h new_type"
    if nt: "new_type = ''App::PropertyFloatList''" and ex: "\<exists>x \<in> set data. \<exists>e. py_float h x = Inl e"
  proof -
    from ex obtain x e where x: "x \<in> set data" "py_float h x = Inl e"
      by blast
    then have "data \<noteq> []"
      by auto
    moreover have "\<exists>e'. map_raise (py_float h) data = Inl e'"
      using x by (rule map_raise_Inl)
    ultimately obtain e' where "convert_list_type h data new_type = Inl e'"
      using nt by (auto simp: convert_list_type_def)
    then show ?thesis
      by (simp add: at fv)
  qed
  show ?thesis
    apply (intro conjI impI)
    subgoal by (rule a)
    subgoal by (rule b)
    subgoal using c by blast
    subgoal using d by blast
    subgoal using e by blast
    subgoal using f by blast
    subgoal using g by blast
    done
qed

lemma str_int_digits: "str_int 1 = ''1''" "str_int 2 = ''2''" "str_int 3 = ''3''"
  by code_simp+

theorem list_to_list_conversion_witness:
  "snd (set_var_type sample_env ''L'' ''App::PropertyStringList'' None doc_numbers) = Inr True \<and>
   Value (fst (set_var_type sample_env ''L'' ''App::PropertyStringList'' None doc_numbers) ! 0)
     = PList [PStr ''1'', PStr ''2'', PStr ''3''] \<and>
   snd (set_var_type sample_env ''L'' ''App::PropertyIntegerList'' None doc_strings) = Inr True \<and>
   Value (fst (set_var_type sample_env ''L'' ''App::PropertyIntegerList'' None doc_strings) ! 0)
     = PList []"
proof -
  have a: "get_varset ''L'' doc_numbers = Some 0" "get_varset ''L'' doc_strings = Some 0"
    by code_simp+
  have b: "''App::PropertyStringList'' \<in> set (supportedProperties sample_env)"
    "''App::PropertyIntegerList'' \<in> set (supportedProperties sample_env)"
    by code_simp+
  have c: "ValueType (doc_numbers ! 0) = ''App::PropertyIntegerList''"
    "Value (doc_numbers ! 0) = PList [PInt 1, PInt 2, PInt 3]"
    "ValueType (doc_strings ! 0) = ''App::PropertyStringList''"
    "Value (doc_strings ! 0) = PList [PStr ''1'', PStr ''x'']"
    by code_simp+
  have d: "endswith ''App::PropertyIntegerList'' ''List''" "endswith ''App::PropertyStringList'' ''List''"
    by code_simp+
  have e: "assign_value sample_env ''App::PropertyStringList''
             (PList (map (\<lambda>x. PStr (py_str sample_env x)) [PInt 1, PInt 2, PInt 3]))
           = Inr (PList [PStr ''1'', PStr ''2'', PStr ''3''])"
    by (simp add: sample_env_def str_int_digits)
  have f: "\<exists>x \<in> set [PStr ''1'', PStr ''x'']. \<exists>e. py_int sample_env x = Inl e"
    by (simp add: int_of_str_def strip_def is_space_def spaces_def is_digit_def digits_def)
  have g: "default_value sample_env ''App::PropertyIntegerList'' = PList []"
    by (simp add: sample_env_def)
  have n: "''App::PropertyIntegerList'' \<noteq> ''App::PropertyStringList''"
    "''App::PropertyIntegerList'' \<noteq> ''App::PropertyStringList'' @ ''List''"
    "''App::PropertyStringList'' \<noteq> ''App::PropertyIntegerList'' @ ''List''"
    "''App::PropertyStringList'' \<noteq> ''App::PropertyIntegerList''"
    by simp_all
  note t1 = list_to_list_conversion [OF a(1) b(1) c(1,2) d(1,2) n(1,2,3)]
  note t2 = list_to_list_conversion [OF a(2) b(2) c(3,4) d(2,1) n(4,3,2)]
  have "snd (set_var_type sample_env ''L'' ''App::PropertyStringList'' None doc_numbers) = Inr True"
    by (rule t1 [THEN conjunct1])
  moreover
  have "Value (fst (set_var_type sample_env ''L'' ''App::PropertyStringList'' None doc_numbers) ! 0)
           = PList [PStr ''1'', PStr ''2'', PStr ''3'']"
    by (rule t1 [THEN conjunct2, THEN conjunct2, THEN conjunct1, rule_format])
       (intro conjI refl e)
  moreover
  have "snd (set_var_type sample_env ''L'' ''App::PropertyIntegerList'' None doc_strings) = Inr True"
    by (rule t2 [THEN conjunct1])
  moreover
  have "Value (fst (set_var_type sample_env ''L'' ''App::PropertyIntegerList'' None doc_strings) ! 0)
           = default_value sample_env ''App::PropertyIntegerList''"
    by (rule t2 [THEN conjunct2, THEN conjunct2, THEN conjunct2, THEN conjunct2, THEN conjunct1,
          rule_format]) (intro conjI refl f)
  ultimately show ?thesis
    by (simp add: g)
qed

text \<open>
  Claim C6, as stated, fails. The strings \<open>1\<close> and \<open>x\<close> migrated to an integer list:
  the claim drops \<open>x\<close> and keeps 1; the code keeps nothing.
\<close>

theorem non_numeric_element_loses_all:
  "snd (set_var_type sample_env ''L'' ''App::PropertyIntegerList'' None doc_strings) = Inr True \<and>
   Value (fst (set_var_type sample_env ''L'' ''App::PropertyIntegerList'' None doc_strings) ! 0)
     = PList [] \<and>
   spec_integer_list sample_env [PStr ''1'', PStr ''x''] = [PInt 1]"
  by code_simp

text \<open>
  Claim C10. When the variable exists and the new type is not among the types the host
  supports, \<open>set_var_type\<close> raises \<open>ValueError\<close> and the document, so the type and the
  value of the variable, is as it was. When no variable has the name, \<open>set_var_type\<close>
  returns false, raises nothing and leaves the document as it was.
\<close>

theorem set_var_type_unsupported_or_missing:
  "(get_varset name doc \<noteq> None \<and> new_type \<notin> set (supportedProperties h) \<longrightarrow>
      set_var_type h name new_type converter doc = (doc, Inl ValueError)) \<and>
   (get_varset name doc = None \<longrightarrow>
      set_var_type h name new_type converter doc = (doc, Inr False))"
  by (auto simp: set_var_type_def)

theorem set_var_type_unsupported_or_missing_witness:
  "get_varset ''L'' doc_numbers \<noteq> None \<and>
   ''App::PropertyColour'' \<notin> set (supportedProperties sample_env) \<and>
   set_var_type sample_env ''L'' ''App::PropertyColour'' None doc_numbers = (doc_numbers, Inl ValueError) \<and>
   get_varset ''Height'' doc_numbers = None \<and>
   set_var_type sample_env ''Height'' ''App::PropertyInteger'' None doc_numbers = (doc_numbers, Inr False)"
proof -
  have a: "get_varset ''L'' doc_numbers \<noteq> None"
    and b: "''App::PropertyColour'' \<notin> set (supportedProperties sample_env)"
    and c: "get_varset ''Height'' doc_numbers = None"
    by code_simp+
  from set_var_type_unsupported_or_missing [of "''L''" doc_numbers "''App::PropertyColour''" sample_env None]
    set_var_type_unsupported_or_missing [of "''Height''" doc_numbers "''App::PropertyInteger''" sample_env None]
    a b c
  show ?thesis
    by simp
qed

text \<open>
  Claim C7. A variable of type \<open>App::PropertyIntegerList\<close>. Holding \<open>[1, 2, 3]\<close> and
  migrated to \<open>App::PropertyStringList\<close>, on a host that stores the list of strings it
  is given, it holds \<open>["1", "2", "3"]\<close>. Holding the empty list and migrated to
  \<open>App::PropertyInteger\<close>, it holds the default value of that type, and the call
  returns true rather than raising.
\<close>

theorem integer_list_migrations:
  assumes "get_varset name doc = Some i"
    and "ValueType (doc ! i) = ''App::PropertyIntegerList''"
  shows
    "(Value (doc ! i) = PList [PInt 1, PInt 2, PInt 3] \<and>
      ''App::PropertyStringList'' \<in> set (supportedProperties h) \<and>
      assign_value h ''App::PropertyStringList'' (PList [PStr ''1'', PStr ''2'', PStr ''3''])
        = Inr (PList [PStr ''1'', PStr ''2'', PStr ''3'']) \<longrightarrow>
      snd (set_var_type h name ''App::PropertyStringList'' None doc) = Inr True \<and>
      ValueType (fst (set_var_type h name ''App::PropertyStringList'' None doc) ! i)
        = ''App::PropertyStringList'' \<and>
      Value (fst (set_var_type h name ''App::PropertyStringList'' None doc) ! i)
        = PList [PStr ''1'', PStr ''2'', PStr ''3'']) \<and>
     (Value (doc ! i) = PList [] \<and> ''App::PropertyInteger'' \<in> set (supportedProperties h) \<longrightarrow>
      snd (set_var_type h name ''App::PropertyInteger'' None doc) = Inr True \<and>
      ValueType (fst (set_var_type h name ''App::PropertyInteger'' None doc) ! i)
        = ''App::PropertyInteger'' \<and>
      Value (fst (set_var_type h name ''App::PropertyInteger'' None doc) ! i)
        = default_value h ''App::PropertyInteger'')"
proof -
  have i: "i < length doc"
    using assms(1) get_varset_Some by blast
  have d: "endswith ''App::PropertyIntegerList'' ''List''" "endswith ''App::PropertyStringList'' ''List''"
    by code_simp+
  show ?thesis
  proof (intro conjI impI; elim conjE)
    assume v: "Value (doc ! i) = PList [PInt 1, PInt 2, PInt 3]"
      and s: "''App::PropertyStringList'' \<in> set (supportedProperties h)"
      and st: "assign_value h ''App::PropertyStringList'' (PList [PStr ''1'', PStr ''2'', PStr ''3''])
        = Inr (PList [PStr ''1'', PStr ''2'', PStr ''3''])"
    have "assign_value h ''App::PropertyStringList''
            (PList (map (\<lambda>x. PStr (py_str h x)) [PInt 1, PInt 2, PInt 3]))
          = Inr (PList [PStr ''1'', PStr ''2'', PStr ''3''])"
      using st by (simp add: str_int_digits)
    then have st': "''App::PropertyStringList'' = ''App::PropertyStringList'' \<and>
        assign_value h ''App::PropertyStringList''
            (PList (map (\<lambda>x. PStr (py_str h x)) [PInt 1, PInt 2, PInt 3]))
          = Inr (PList [PStr ''1'', PStr ''2'', PStr ''3''])"
      by simp
    have n: "''App::PropertyIntegerList'' \<noteq> ''App::PropertyStringList''"
      "''App::PropertyIntegerList'' \<noteq> ''App::PropertyStringList'' @ ''List''"
      "''App::PropertyStringList'' \<noteq> ''App::PropertyIntegerList'' @ ''List''"
      by simp_all
    note t = list_to_list_conversion [OF assms(1) s assms(2) v d(1,2) n]
    show "snd (set_var_type h name ''App::PropertyStringList'' None doc) = Inr True"
      by (rule t [THEN conjunct1])
    show "ValueType (fst (set_var_type h name ''App::PropertyStringList'' None doc) ! i)
        = ''App::PropertyStringList''"
      by (rule t [THEN conjunct2, THEN conjunct1])
    show "Value (fst (set_var_type h name ''App::PropertyStringList'' None doc) ! i)
        = PList [PStr ''1'', PStr ''2'', PStr ''3'']"
      by (rule t [THEN conjunct2, THEN conjunct2, THEN conjunct1, rule_format]) (rule st')
  next
    assume v: "Value (doc ! i) = PList []"
      and s: "''App::PropertyInteger'' \<in> set (supportedProperties h)"
    have res: "set_var_type h name ''App::PropertyInteger'' None doc =
        (doc[i := replace_value_property h ''App::PropertyInteger'' (doc ! i)], Inr True)"
      using assms v s by (simp add: set_var_type_def Let_def)
    show "snd (set_var_type h name ''App::PropertyInteger'' None doc) = Inr True"
      and "ValueType (fst (set_var_type h name ''App::PropertyInteger'' None doc) ! i)
        = ''App::PropertyInteger''"
      and "Value (fst (set_var_type h name ''App::PropertyInteger'' None doc) ! i)
        = default_value h ''App::PropertyInteger''"
      using i by (simp_all add: res replace_value_property_def)
  qed
qed

theorem integer_list_migrations_witness:
  "get_varset ''L'' doc_numbers = Some 0 \<and> get_varset ''L'' doc_empty_list = Some 0 \<and>
   set_var_type sample_env ''L'' ''App::PropertyStringList'' None doc_numbers
     = ([sample_list_var ''App::PropertyStringList'' [PStr ''1'', PStr ''2'', PStr ''3'']], Inr True) \<and>
   snd (set_var_type sample_env ''L'' ''App::PropertyInteger'' None doc_empty_list) = Inr True \<and>
   Value (fst (set_var_type sample_env ''L'' ''App::PropertyInteger'' None doc_empty_list) ! 0) = PInt 0"
proof -
  have a: "get_varset ''L'' doc_numbers = Some 0" "get_varset ''L'' doc_empty_list = Some 0"
    by code_simp+
  have c: "ValueType (doc_numbers ! 0) = ''App::PropertyIntegerList''"
    "ValueType (doc_empty_list ! 0) = ''App::PropertyIntegerList''"
    by code_simp+
  have d: "set_var_type sample_env ''L'' ''App::PropertyStringList'' None doc_numbers
     = ([sample_list_var ''App::PropertyStringList'' [PStr ''1'', PStr ''2'', PStr ''3'']], Inr True)"
    by code_simp
  have e: "Value (doc_empty_list ! 0) = PList []"
    "''App::PropertyInteger'' \<in> set (supportedProperties sample_env)"
    "default_value sample_env ''App::PropertyInteger'' = PInt 0"
    by code_simp+
  from integer_list_migrations [OF a(2) c(2), of sample_env] a d e
  show ?thesis
    by simp
qed

section \<open>Properties of \<open>reorder_group\<close>\<close>

lemma forget_group_keys_length: "forget_group_keys a = forget_group_keys b \<Longrightarrow> length a = length b"
  by (metis forget_group_keys_def length_map)

lemma forget_group_keys_update [simp]:
  "forget_group_keys (doc[i := (doc ! i) \<lparr> GroupSortKey := k \<rparr>]) = forget_group_keys doc"
proof (cases "i < length doc")
  case True
  have "(forget_group_keys doc)[i := forget_group_keys doc ! i] = forget_group_keys doc"
    by (rule list_update_id)
  with True show ?thesis
    by (simp add: forget_group_keys_def map_update)
next
  case False
  then have "doc[i := (doc ! i) \<lparr> GroupSortKey := k \<rparr>] = doc"
    by (intro list_update_beyond) simp
  then show ?thesis
    by simp
qed

lemma forget_group_keys_fields:
  assumes "forget_group_keys a = forget_group_keys b"
  shows "map Label a = map Label b" and "map Name a = map Name b"
    and "map VarGroup a = map VarGroup b" and "map SortKey a = map SortKey b"
proof -
  have "map Label (forget_group_keys a) = map Label (forget_group_keys b)"
    and "map Name (forget_group_keys a) = map Name (forget_group_keys b)"
    and "map VarGroup (forget_group_keys a) = map VarGroup (forget_group_keys b)"
    and "map SortKey (forget_group_keys a) = map SortKey (forget_group_keys b)"
    using assms by simp_all
  then show "map Label a = map Label b" and "map Name a = map Name b"
    and "map VarGroup a = map VarGroup b" and "map SortKey a = map SortKey b"
    by (simp_all add: forget_group_keys_def comp_def)
qed

lemma forget_group_keys_group_of:
  "forget_group_keys a = forget_group_keys b \<Longrightarrow> map group_of a = map group_of b"
proof -
  assume "forget_group_keys a = forget_group_keys b"
  then have "map VarGroup a = map VarGroup b"
    by (rule forget_group_keys_fields)
  then have "map ((\<lambda>g. if g = [] then ''Default'' else g) \<circ> VarGroup) a
           = map ((\<lambda>g. if g = [] then ''Default'' else g) \<circ> VarGroup) b"
    by (metis map_map)
  moreover have "group_of = (\<lambda>g. if g = [] then ''Default'' else g) \<circ> VarGroup"
    by (auto simp: group_of_def fun_eq_iff)
  ultimately show ?thesis
    by simp
qed

lemma forget_group_keys_var_group:
  assumes "forget_group_keys a = forget_group_keys b" and "snd v < length b"
  shows "var_group a v = var_group b v"
proof -
  have "length a = length b"
    using assms(1) by (rule forget_group_keys_length)
  then show ?thesis
    using forget_group_keys_group_of [OF assms(1)] assms(2)
    by (metis nth_map var_group_def)
qed

lemma forget_group_keys_wf:
  "forget_group_keys a = forget_group_keys b \<Longrightarrow> wf_doc b \<Longrightarrow> wf_doc a"
  using forget_group_keys_fields(1,2) [of a b] by (simp add: wf_doc_def)

lemma forget_group_keys_vars:
  assumes "forget_group_keys a = forget_group_keys b"
  shows "vars_of a = vars_of b"
proof -
  have "length a = length b"
    using assms by (rule forget_group_keys_length)
  moreover have "Label (a ! i) = Label (b ! i)" if "i < length b" for i
    using forget_group_keys_fields(1) [OF assms] that \<open>length a = length b\<close> by (metis nth_map)
  ultimately show ?thesis
    by (simp add: vars_of_def)
qed

lemma update_keys: "fst ` set (AList.update k v al) = insert k (fst ` set al)"
  by (induction al) auto

text \<open>The first loop: it writes group keys only, and its dictionary has one entry per group.\<close>

lemma scan_groups_props:
  assumes "scan_groups h vs gd0 doc = (doc1, Inr (Some gd))"
    and "\<forall>v \<in> set vs. snd v < length doc"
  shows "forget_group_keys doc1 = forget_group_keys doc
       \<and> fst ` set gd = fst ` set gd0 \<union> var_group doc ` set vs
       \<and> (distinct (map fst gd0) \<longrightarrow> distinct (map fst gd))"
  using assms
proof (induction h vs gd0 doc rule: scan_groups.induct)
  case (1 h groups_data doc)
  then show ?case by simp
next
  case (2 h v vs groups_data doc)
  show ?case
  proof (cases "GroupSortKey (doc ! snd v)")
    case (Some gsk)
    show ?thesis
    proof (cases "map_of groups_data (var_group doc v) = None")
      case True
      with Some "2.prems"
      have run: "scan_groups h vs (AList.update (var_group doc v) gsk groups_data) doc = (doc1, Inr (Some gd))"
        by simp
      from "2.IH"(2) [OF Some True run] "2.prems"(2)
      show ?thesis
        by (auto simp: update_keys distinct_update)
    next
      case False
      with Some "2.prems"
      have run: "scan_groups h vs groups_data doc = (doc1, Inr (Some gd))"
        by simp
      from False have "var_group doc v \<in> fst ` set groups_data"
        by (simp add: map_of_eq_None_iff)
      with "2.IH"(3) [OF Some False run] "2.prems"(2)
      show ?thesis
        by auto
    qed
  next
    case None
    let ?g = "var_group doc v"
    let ?doc1 = "doc[snd v := (doc ! snd v) \<lparr> GroupSortKey := Some 0 \<rparr>]"
    from None "2.prems"(1) have nr: "\<not> isRestoring h"
      by (auto split: if_splits)
    with None "2.prems"(1) obtain fix_gsk where
      fx: "get_or_assign_initial_group_sort_key ?g ?doc1 = Inr fix_gsk"
      by (auto simp: Let_def split: sum.splits)
    let ?doc2 = "?doc1[snd v := (?doc1 ! snd v) \<lparr> GroupSortKey := Some fix_gsk \<rparr>]"
    have run: "scan_groups h vs (AList.update ?g fix_gsk groups_data) ?doc2 = (doc1, Inr (Some gd))"
      using None nr fx "2.prems"(1) by (simp add: Let_def)
    have fk: "forget_group_keys ?doc2 = forget_group_keys doc"
      by (simp only: forget_group_keys_update)
    have len: "\<forall>w \<in> set vs. snd w < length ?doc2"
      using "2.prems"(2) by simp
    have grp: "var_group ?doc2 ` set vs = var_group doc ` set vs"
      using forget_group_keys_var_group [OF fk] "2.prems"(2) by (intro image_cong) auto
    from "2.IH"(1) [OF None nr refl fx run len] fk grp
    show ?thesis
      by (auto simp: update_keys distinct_update)
  qed
qed

text \<open>The last loops: what they leave in the document.\<close>

lemma group_key_same: "GroupSortKey ob = Some k \<Longrightarrow> ob \<lparr> GroupSortKey := Some k \<rparr> = ob"
  by (cases ob) simp

lemma assign_group_key_step:
  "\<exists>ch'. assign_group_key (v # vs) target idx (doc, ch) =
     assign_group_key vs target idx
       (if var_group doc v = target
        then doc[snd v := (doc ! snd v) \<lparr> GroupSortKey := Some idx \<rparr>] else doc, ch')"
proof (cases "var_group doc v = target")
  case False
  then show ?thesis by (intro exI [of _ ch]) simp
next
  case True
  show ?thesis
  proof (cases "GroupSortKey (doc ! snd v)")
    case None
    with True show ?thesis
      by (cases "idx = 0") (auto simp: Let_def)
  next
    case (Some k)
    with True show ?thesis
      by (cases "k = idx") (auto simp: Let_def group_key_same)
  qed
qed

lemma forget_group_keys_nth:
  assumes "forget_group_keys a = forget_group_keys b" and "i < length b"
  shows "group_of (a ! i) = group_of (b ! i)"
proof -
  have "length a = length b"
    using assms(1) by (rule forget_group_keys_length)
  then show ?thesis
    using forget_group_keys_group_of [OF assms(1)] assms(2) by (metis nth_map)
qed

lemma assign_group_key_props:
  "forget_group_keys (fst (assign_group_key vs target idx (doc, ch))) = forget_group_keys doc \<and>
   (\<forall>i < length doc.
      if i \<in> snd ` set vs \<and> group_of (doc ! i) = target
      then GroupSortKey (fst (assign_group_key vs target idx (doc, ch)) ! i) = Some idx
      else fst (assign_group_key vs target idx (doc, ch)) ! i = doc ! i)"
proof (induction vs arbitrary: doc ch)
  case Nil
  then show ?case by simp
next
  case (Cons v vs)
  define d1 where "d1 = (if var_group doc v = target
        then doc[snd v := (doc ! snd v) \<lparr> GroupSortKey := Some idx \<rparr>] else doc)"
  obtain ch' where step: "assign_group_key (v # vs) target idx (doc, ch) =
      assign_group_key vs target idx (d1, ch')"
    using assign_group_key_step [of v vs target idx doc ch] unfolding d1_def by blast
  have fk: "forget_group_keys d1 = forget_group_keys doc"
    by (simp add: d1_def)
  have len: "length d1 = length doc"
    by (simp add: d1_def)
  note IH = Cons.IH [of d1 ch']
  have d1_nth: "d1 ! i = (if i = snd v \<and> group_of (doc ! i) = target
        then (doc ! i) \<lparr> GroupSortKey := Some idx \<rparr> else doc ! i)" if "i < length doc" for i
    using that by (auto simp: d1_def var_group_def)
  show ?case
  proof (intro conjI allI impI)
    show "forget_group_keys (fst (assign_group_key (v # vs) target idx (doc, ch))) = forget_group_keys doc"
      unfolding step using IH fk by simp
  next
    fix i assume i: "i < length doc"
    have g: "group_of (d1 ! i) = group_of (doc ! i)"
      using forget_group_keys_nth [OF fk i] .
    have rest:
      "if i \<in> snd ` set vs \<and> group_of (d1 ! i) = target
       then GroupSortKey (fst (assign_group_key vs target idx (d1, ch')) ! i) = Some idx
       else fst (assign_group_key vs target idx (d1, ch')) ! i = d1 ! i"
      using i len by (intro IH [THEN conjunct2, rule_format]) simp
    show "if i \<in> snd ` set (v # vs) \<and> group_of (doc ! i) = target
          then GroupSortKey (fst (assign_group_key (v # vs) target idx (doc, ch)) ! i) = Some idx
          else fst (assign_group_key (v # vs) target idx (doc, ch)) ! i = doc ! i"
      unfolding step using rest g d1_nth [OF i] by (auto split: if_splits)
  qed
qed

lemma assign_group_keys_props:
  assumes "distinct (map fst gs)"
  shows "forget_group_keys (fst (assign_group_keys vars gs idx0 (doc, ch))) = forget_group_keys doc \<and>
   (\<forall>i < length doc.
      if i \<in> snd ` set vars \<and> group_of (doc ! i) \<in> fst ` set gs
      then GroupSortKey (fst (assign_group_keys vars gs idx0 (doc, ch)) ! i)
             = Some (idx0 + int (index_of (group_of (doc ! i)) (map fst gs)))
      else fst (assign_group_keys vars gs idx0 (doc, ch)) ! i = doc ! i)"
  using assms
proof (induction gs arbitrary: idx0 doc ch)
  case Nil
  then show ?case by simp
next
  case (Cons g gs)
  obtain d1 ch1 where inner: "assign_group_key vars (fst g) idx0 (doc, ch) = (d1, ch1)"
    by (cases "assign_group_key vars (fst g) idx0 (doc, ch)") auto
  have step: "assign_group_keys vars (g # gs) idx0 (doc, ch) = assign_group_keys vars gs (idx0 + 1) (d1, ch1)"
    by (simp add: inner)
  have props: "forget_group_keys d1 = forget_group_keys doc \<and>
      (\<forall>i < length doc.
        if i \<in> snd ` set vars \<and> group_of (doc ! i) = fst g
        then GroupSortKey (d1 ! i) = Some idx0 else d1 ! i = doc ! i)"
    using assign_group_key_props [of vars "fst g" idx0 doc ch] unfolding inner fst_conv .
  have fk: "forget_group_keys d1 = forget_group_keys doc"
    by (rule props [THEN conjunct1])
  have len: "length d1 = length doc"
    using fk by (rule forget_group_keys_length)
  have dist: "distinct (map fst gs)" and notin: "fst g \<notin> fst ` set gs"
    using Cons.prems by simp_all
  note IH = Cons.IH [OF dist, of "idx0 + 1" d1 ch1]
  show ?case
  proof (intro conjI allI impI)
    show "forget_group_keys (fst (assign_group_keys vars (g # gs) idx0 (doc, ch))) = forget_group_keys doc"
      unfolding step using IH fk by simp
  next
    fix i assume i: "i < length doc"
    have g: "group_of (d1 ! i) = group_of (doc ! i)"
      using forget_group_keys_nth [OF fk i] .
    have rest:
      "if i \<in> snd ` set vars \<and> group_of (d1 ! i) \<in> fst ` set gs
       then GroupSortKey (fst (assign_group_keys vars gs (idx0 + 1) (d1, ch1)) ! i)
              = Some (idx0 + 1 + int (index_of (group_of (d1 ! i)) (map fst gs)))
       else fst (assign_group_keys vars gs (idx0 + 1) (d1, ch1)) ! i = d1 ! i"
      using i len by (intro IH [THEN conjunct2, rule_format]) simp
    have here:
      "if i \<in> snd ` set vars \<and> group_of (doc ! i) = fst g
       then GroupSortKey (d1 ! i) = Some idx0 else d1 ! i = doc ! i"
      using i by (intro props [THEN conjunct2, rule_format])
    show "if i \<in> snd ` set vars \<and> group_of (doc ! i) \<in> fst ` set (g # gs)
          then GroupSortKey (fst (assign_group_keys vars (g # gs) idx0 (doc, ch)) ! i)
                 = Some (idx0 + int (index_of (group_of (doc ! i)) (map fst (g # gs))))
          else fst (assign_group_keys vars (g # gs) idx0 (doc, ch)) ! i = doc ! i"
    proof (cases "i \<in> snd ` set vars \<and> group_of (doc ! i) = fst g")
      case True
      with notin have "group_of (d1 ! i) \<notin> fst ` set gs"
        using g by simp
      with rest have "fst (assign_group_keys vars gs (idx0 + 1) (d1, ch1)) ! i = d1 ! i"
        by simp
      with True here show ?thesis
        unfolding step by simp
    next
      case False
      with here have same: "d1 ! i = doc ! i"
        by simp
      show ?thesis
      proof (cases "i \<in> snd ` set vars \<and> group_of (doc ! i) \<in> fst ` set gs")
        case True
        with False have "group_of (doc ! i) \<noteq> fst g"
          by blast
        with True rest same show ?thesis
          unfolding step by simp
      next
        case no: False
        with rest same have "fst (assign_group_keys vars gs (idx0 + 1) (d1, ch1)) ! i = doc ! i"
          by simp
        with False no show ?thesis
          unfolding step by auto
      qed
    qed
  qed
qed

text \<open>Taking an element out of a list and putting it back elsewhere.\<close>

lemma distinct_insert_middle:
  "distinct (map f (ys @ zs)) \<Longrightarrow> f x \<notin> set (map f (ys @ zs)) \<Longrightarrow>
   distinct (map f (ys @ x # zs))"
  by auto

lemma pop_insert_props:
  assumes "i < length xs" and "j < length xs"
  shows "length (pop_insert i j xs) = length xs"
    and "set (pop_insert i j xs) = set xs"
    and "pop_insert i j xs ! j = xs ! i"
    and "distinct (map f xs) \<Longrightarrow> distinct (map f (pop_insert i j xs))"
proof -
  define rest where "rest = take i xs @ drop (Suc i) xs"
  have xs: "xs = take i xs @ xs ! i # drop (Suc i) xs"
    using assms(1) by (rule id_take_nth_drop)
  have pi: "pop_insert i j xs = take j rest @ [xs ! i] @ drop j rest"
    by (simp add: pop_insert_def rest_def Let_def)
  have lr: "length rest = length xs - 1"
    using assms(1) by (simp add: rest_def)
  then have jr: "j \<le> length rest"
    using assms(2) by simp
  have rest_split: "rest = take j rest @ drop j rest"
    by simp
  show "length (pop_insert i j xs) = length xs"
    using lr jr assms(1) by (simp add: pi)
  have "set xs = insert (xs ! i) (set rest)"
    by (subst xs) (auto simp: rest_def)
  moreover have "set (pop_insert i j xs) = insert (xs ! i) (set (take j rest) \<union> set (drop j rest))"
    by (simp add: pi)
  moreover have "set (take j rest) \<union> set (drop j rest) = set rest"
    by (metis rest_split set_append)
  ultimately show "set (pop_insert i j xs) = set xs"
    by simp
  show "pop_insert i j xs ! j = xs ! i"
    using jr by (simp add: pi nth_append)
  show "distinct (map f (pop_insert i j xs))" if "distinct (map f xs)"
  proof -
    have "distinct (map f (take i xs) @ f (xs ! i) # map f (drop (Suc i) xs))"
      using that by (subst (asm) xs) simp
    then have a: "distinct (map f rest)" and b: "f (xs ! i) \<notin> set (map f rest)"
      by (auto simp: rest_def)
    have "distinct (map f (take j rest @ xs ! i # drop j rest))"
      using a b by (intro distinct_insert_middle) simp_all
    then show ?thesis
      by (simp add: pi)
  qed
qed

end
